theory Spec2Isabelle
  imports Main
begin

section \<open>The SQL storage of one Durable Object instance\<close>

text \<open>
  \<^verbatim>\<open>ShopifyStorage\<close> hands every query to \<^verbatim>\<open>this.ctx.storage.sql.exec\<close>, the SQLite
  engine of the platform. The engine is not part of the repository; it is modelled here
  for the statements the adapters issue. A bound parameter and a stored column value is
  NULL, an integer or a text; a JavaScript \<^verbatim>\<open>undefined\<close> parameter is bound as NULL.
  Column affinity conversions are left out: the adapters bind integers to INTEGER columns
  and strings to TEXT columns only. A statement has taken effect when \<^verbatim>\<open>sql.exec\<close>
  returns. A string is a list of characters, one per code unit of the source's string.
\<close>

datatype sqlval = SqlNull | SqlInt int | SqlText string

text \<open>A row as \<^verbatim>\<open>cursor.toArray()\<close> returns it: an object keyed by column name.\<close>

type_synonym row = "(string \<times> sqlval) list"

datatype coltype = TEXT | INTEGER

datatype colconstraint = Plain | PrimaryKey | NotNull

record column =
  cname :: string
  ctype :: coltype
  cconstraint :: colconstraint

record table =
  tcols :: "column list"
  trows :: "row list"

type_synonym database = "string \<rightharpoonup> table"

text \<open>
  The queries of the source, by shape. Each constructor stands for the SQL text given
  beside it, with the table and column names the source interpolates.
\<close>

datatype query =
    CreateTableIfNotExists string "column list"
      \<comment> \<open>\<^verbatim>\<open>CREATE TABLE IF NOT EXISTS t (schema)\<close>\<close>
  | InsertOrReplace string "string list"
      \<comment> \<open>\<^verbatim>\<open>INSERT OR REPLACE INTO t (c1, ..., cn) VALUES (?, ..., ?)\<close>\<close>
  | SelectWhere string string
      \<comment> \<open>\<^verbatim>\<open>SELECT * FROM t WHERE c = ?\<close>\<close>
  | SelectAllOrderByDesc string string
      \<comment> \<open>\<^verbatim>\<open>SELECT * FROM t ORDER BY c DESC\<close>\<close>
  | DeleteWhere string string
      \<comment> \<open>\<^verbatim>\<open>DELETE FROM t WHERE c = ?\<close>\<close>
  | DeleteAll string
      \<comment> \<open>\<^verbatim>\<open>DELETE FROM t\<close>\<close>

record cursor =
  toArray :: "row list"
  rowsRead :: nat
  rowsWritten :: nat

definition field :: "string \<Rightarrow> row \<Rightarrow> sqlval" where
  \<comment> \<open>\<^verbatim>\<open>row.c\<close>; a missing property reads as NULL\<close>
  "field c r = (case map_of r c of None \<Rightarrow> SqlNull | Some v \<Rightarrow> v)"

definition sql_eq :: "sqlval \<Rightarrow> sqlval \<Rightarrow> bool" where
  \<comment> \<open>SQL \<^verbatim>\<open>=\<close> in a WHERE clause: a comparison with NULL is never true\<close>
  "sql_eq a b = (a \<noteq> SqlNull \<and> a = b)"

definition has_column :: "table \<Rightarrow> string \<Rightarrow> bool" where
  "has_column tb c = (c \<in> set (map cname (tcols tb)))"

definition pk_columns :: "table \<Rightarrow> string list" where
  "pk_columns tb = map cname (filter (\<lambda>c. cconstraint c = PrimaryKey) (tcols tb))"

definition notnull_columns :: "table \<Rightarrow> string list" where
  "notnull_columns tb = map cname (filter (\<lambda>c. cconstraint c = NotNull) (tcols tb))"

definition conflicts :: "table \<Rightarrow> row \<Rightarrow> row \<Rightarrow> bool" where
  \<comment> \<open>two rows collide on a primary key column\<close>
  "conflicts tb new old = list_ex (\<lambda>c. sql_eq (field c new) (field c old)) (pk_columns tb)"

definition make_row :: "table \<Rightarrow> string list \<Rightarrow> sqlval list \<Rightarrow> row" where
  \<comment> \<open>the inserted row: the listed columns take the bound values, the others NULL\<close>
  "make_row tb cols ps = map (\<lambda>c. (cname c, field (cname c) (zip cols ps))) (tcols tb)"

text \<open>
  SQLite's order of values: NULL first, then integers, then text. Under
  \<^verbatim>\<open>ORDER BY c DESC\<close> the rows with equal values of \<open>c\<close> keep the order of the table:
  \<open>insert_desc\<close> puts a row before the rows, all later in the table, that are not greater.
\<close>

fun text_le :: "string \<Rightarrow> string \<Rightarrow> bool" where
  "text_le [] _ = True"
| "text_le (_ # _) [] = False"
| "text_le (a # as) (b # bs) =
     (if a = b then text_le as bs else (of_char a :: nat) < of_char b)"

fun sql_le :: "sqlval \<Rightarrow> sqlval \<Rightarrow> bool" where
  "sql_le SqlNull _ = True"
| "sql_le (SqlInt _) SqlNull = False"
| "sql_le (SqlInt a) (SqlInt b) = (a \<le> b)"
| "sql_le (SqlInt _) (SqlText _) = True"
| "sql_le (SqlText a) (SqlText b) = text_le a b"
| "sql_le (SqlText _) _ = False"

fun insert_desc :: "string \<Rightarrow> row \<Rightarrow> row list \<Rightarrow> row list" where
  "insert_desc c r [] = [r]"
| "insert_desc c r (x # xs) =
     (if sql_le (field c x) (field c r) then r # x # xs else x # insert_desc c r xs)"

fun order_by_desc :: "string \<Rightarrow> row list \<Rightarrow> row list" where
  "order_by_desc c [] = []"
| "order_by_desc c (r # rs) = insert_desc c r (order_by_desc c rs)"

definition no_such_table :: "string \<Rightarrow> string" where
  "no_such_table t = ''no such table: '' @ t"

fun exec_query :: "query \<Rightarrow> sqlval list \<Rightarrow> database \<Rightarrow> string + (cursor \<times> database)" where
  "exec_query (CreateTableIfNotExists t schema) ps db =
     (case db t of
        Some _ \<Rightarrow> Inr (\<lparr>toArray = [], rowsRead = 0, rowsWritten = 0\<rparr>, db)
      | None \<Rightarrow> Inr (\<lparr>toArray = [], rowsRead = 0, rowsWritten = 1\<rparr>,
                     db(t \<mapsto> \<lparr>tcols = schema, trows = []\<rparr>)))"
| "exec_query (InsertOrReplace t cols) ps db =
     (case db t of
        None \<Rightarrow> Inl (no_such_table t)
      | Some tb \<Rightarrow>
          if list_ex (\<lambda>c. \<not> has_column tb c) cols
          then Inl (''table '' @ t @ '' has no column named ''
                    @ hd (filter (\<lambda>c. \<not> has_column tb c) cols))
          else if length ps \<noteq> length cols
          then Inl (''wrong number of bindings supplied'')
          else
            let r = make_row tb cols ps in
            if list_ex (\<lambda>c. field c r = SqlNull) (notnull_columns tb)
            then Inl (''NOT NULL constraint failed: '' @ t @ ''.''
                      @ hd (filter (\<lambda>c. field c r = SqlNull) (notnull_columns tb)))
            else
              let kept = filter (\<lambda>old. \<not> conflicts tb r old) (trows tb) in
              Inr (\<lparr>toArray = [], rowsRead = 0,
                    rowsWritten = Suc (length (trows tb) - length kept)\<rparr>,
                   db(t \<mapsto> tb\<lparr>trows := kept @ [r]\<rparr>)))"
| "exec_query (SelectWhere t c) ps db =
     (case db t of
        None \<Rightarrow> Inl (no_such_table t)
      | Some tb \<Rightarrow>
          if \<not> has_column tb c then Inl (''no such column: '' @ c)
          else if length ps \<noteq> 1 then Inl (''wrong number of bindings supplied'')
          else
            let found = filter (\<lambda>r. sql_eq (field c r) (hd ps)) (trows tb) in
            Inr (\<lparr>toArray = found, rowsRead = length found, rowsWritten = 0\<rparr>, db))"
| "exec_query (SelectAllOrderByDesc t c) ps db =
     (case db t of
        None \<Rightarrow> Inl (no_such_table t)
      | Some tb \<Rightarrow>
          if \<not> has_column tb c then Inl (''no such column: '' @ c)
          else if ps \<noteq> [] then Inl (''wrong number of bindings supplied'')
          else Inr (\<lparr>toArray = order_by_desc c (trows tb),
                     rowsRead = length (trows tb), rowsWritten = 0\<rparr>, db))"
| "exec_query (DeleteWhere t c) ps db =
     (case db t of
        None \<Rightarrow> Inl (no_such_table t)
      | Some tb \<Rightarrow>
          if \<not> has_column tb c then Inl (''no such column: '' @ c)
          else if length ps \<noteq> 1 then Inl (''wrong number of bindings supplied'')
          else
            let kept = filter (\<lambda>r. \<not> sql_eq (field c r) (hd ps)) (trows tb) in
            Inr (\<lparr>toArray = [], rowsRead = length (trows tb),
                  rowsWritten = length (trows tb) - length kept\<rparr>,
                 db(t \<mapsto> tb\<lparr>trows := kept\<rparr>)))"
| "exec_query (DeleteAll t) ps db =
     (case db t of
        None \<Rightarrow> Inl (no_such_table t)
      | Some tb \<Rightarrow>
          if ps \<noteq> [] then Inl (''wrong number of bindings supplied'')
          else Inr (\<lparr>toArray = [], rowsRead = 0, rowsWritten = length (trows tb)\<rparr>,
                    db(t \<mapsto> tb\<lparr>trows := []\<rparr>)))"

section \<open>The world of one request\<close>

text \<open>
  Everything the code reads or changes beyond its arguments: whether the
  \<^verbatim>\<open>SHOPIFY_STORAGE\<close> binding is present in \<^verbatim>\<open>context.cloudflare.env\<close>, the database of
  every named instance (\<^verbatim>\<open>idFromName\<close> followed by \<^verbatim>\<open>get\<close> reaches the same instance
  for the same name, and creates it empty on first use), and the clock that
  \<^verbatim>\<open>Date.now()\<close> reads. Two fields belong to the model alone: \<open>faults\<close> schedules the
  outcome of the coming \<^verbatim>\<open>sql.exec\<close> calls, one entry per call (\<open>Some msg\<close>: the call
  raises an error with that message whatever the query, \<open>None\<close> or no entry: the engine
  runs the query), and \<open>calls\<close> records every \<^verbatim>\<open>sql.exec\<close> call made, oldest first.
\<close>

type_synonym call = "string \<times> query \<times> sqlval list"

record world =
  binding :: bool
  storage :: "string \<Rightarrow> database"
  now :: int
  faults :: "string option list"
  calls :: "call list"

definition next_fault :: "world \<Rightarrow> string option" where
  "next_fault w = (case faults w of [] \<Rightarrow> None | f # _ \<Rightarrow> f)"

definition sql_exec :: "string \<Rightarrow> query \<Rightarrow> sqlval list \<Rightarrow> world \<Rightarrow> (string + cursor) \<times> world" where
  \<comment> \<open>\<^verbatim>\<open>this.ctx.storage.sql.exec(query, ...params)\<close> inside the instance \<open>inst\<close>;
      \<open>Inl msg\<close> is a raised error with \<^verbatim>\<open>error.message = msg\<close>\<close>
  "sql_exec inst q ps w =
     (let w1 = w\<lparr>faults := tl (faults w), calls := calls w @ [(inst, q, ps)]\<rparr> in
      case next_fault w of
        Some msg \<Rightarrow> (Inl msg, w1)
      | None \<Rightarrow>
          (case exec_query q ps (storage w inst) of
             Inl msg \<Rightarrow> (Inl msg, w1)
           | Inr (c, db) \<Rightarrow> (Inr c, w1\<lparr>storage := (storage w)(inst := db)\<rparr>)))"

section \<open>ShopifyStorage: run, first, all\<close>

record run_result =
  run_success :: bool
  run_error :: "string option"
  run_meta :: "(nat \<times> nat) option"

record first_result =
  first_row :: "row option"
  first_error :: "string option"

record all_result =
  all_results :: "row list"
  all_error :: "string option"
  all_meta :: "(nat \<times> nat) option"

definition run :: "string \<Rightarrow> query \<Rightarrow> sqlval list \<Rightarrow> world \<Rightarrow> run_result \<times> world" where
  "run inst q ps w =
     (case sql_exec inst q ps w of
        (Inr c, w') \<Rightarrow>
          (\<lparr>run_success = True, run_error = None,
            run_meta = Some (rowsRead c, rowsWritten c)\<rparr>, w')
      | (Inl msg, w') \<Rightarrow>
          (\<lparr>run_success = False, run_error = Some msg, run_meta = None\<rparr>, w'))"

definition first :: "string \<Rightarrow> query \<Rightarrow> sqlval list \<Rightarrow> world \<Rightarrow> first_result \<times> world" where
  "first inst q ps w =
     (case sql_exec inst q ps w of
        (Inr c, w') \<Rightarrow>
          (let results = toArray c;
               result = (if length results > 0 then Some (results ! 0) else None)
           in (\<lparr>first_row = result, first_error = None\<rparr>, w'))
      | (Inl msg, w') \<Rightarrow> (\<lparr>first_row = None, first_error = Some msg\<rparr>, w'))"

definition all :: "string \<Rightarrow> query \<Rightarrow> sqlval list \<Rightarrow> world \<Rightarrow> all_result \<times> world" where
  "all inst q ps w =
     (case sql_exec inst q ps w of
        (Inr c, w') \<Rightarrow>
          (\<lparr>all_results = toArray c, all_error = None,
            all_meta = Some (rowsRead c, rowsWritten c)\<rparr>, w')
      | (Inl msg, w') \<Rightarrow>
          (\<lparr>all_results = [], all_error = Some msg, all_meta = None\<rparr>, w'))"

section \<open>JavaScript idioms\<close>

definition truthy_str :: "string option \<Rightarrow> bool" where
  \<comment> \<open>\<^verbatim>\<open>if (result.error)\<close>: an absent or empty string is falsy\<close>
  "truthy_str e = (case e of None \<Rightarrow> False | Some m \<Rightarrow> m \<noteq> [])"

definition or_default :: "string option \<Rightarrow> string \<Rightarrow> string" where
  \<comment> \<open>\<^verbatim>\<open>result.error || 'text'\<close>\<close>
  "or_default e d = (case e of None \<Rightarrow> d | Some m \<Rightarrow> if m = [] then d else m)"

definition truthy :: "sqlval \<Rightarrow> bool" where
  \<comment> \<open>\<^verbatim>\<open>if (row.c)\<close>: null, 0 and the empty string are falsy\<close>
  "truthy v = (case v of SqlNull \<Rightarrow> False | SqlInt n \<Rightarrow> n \<noteq> 0 | SqlText s \<Rightarrow> s \<noteq> [])"

fun starts_with :: "string \<Rightarrow> string \<Rightarrow> bool" where
  "starts_with s [] = True"
| "starts_with [] (p # ps) = False"
| "starts_with (c # cs) (p # ps) = (c = p \<and> starts_with cs ps)"

fun includes_str :: "string \<Rightarrow> string \<Rightarrow> bool" where
  \<comment> \<open>\<^verbatim>\<open>s.includes(pat)\<close>\<close>
  "includes_str [] pat = (pat = [])"
| "includes_str (c # cs) pat = (starts_with (c # cs) pat \<or> includes_str cs pat)"

fun split_on :: "char \<Rightarrow> string \<Rightarrow> string list" where
  \<comment> \<open>\<^verbatim>\<open>s.split(d)\<close> for a one-character separator; the empty string gives one empty part\<close>
  "split_on d [] = [[]]"
| "split_on d (c # cs) =
     (if c = d then [] # split_on d cs
      else (case split_on d cs of [] \<Rightarrow> [[c]] | p # ps \<Rightarrow> (c # p) # ps))"

section \<open>The settings service (durable.service.ts)\<close>

record database_config =
  cfg_key :: string
  cfg_name :: string
  cfg_instanceName :: string
  cfg_tableName :: string
  cfg_settingKey :: string

definition DATABASE_CONFIG :: "database_config list" where
  "DATABASE_CONFIG =
     [\<lparr>cfg_key = ''DB1'', cfg_name = ''Primary Database'', cfg_instanceName = ''database-1'',
       cfg_tableName = ''settings'', cfg_settingKey = ''test_checkbox_db1''\<rparr>,
      \<lparr>cfg_key = ''DB2'', cfg_name = ''Secondary Database'', cfg_instanceName = ''database-2'',
       cfg_tableName = ''settings'', cfg_settingKey = ''test_checkbox_db2''\<rparr>,
      \<lparr>cfg_key = ''DB3'', cfg_name = ''Tertiary Database'', cfg_instanceName = ''database-3'',
       cfg_tableName = ''settings'', cfg_settingKey = ''test_checkbox_db3''\<rparr>]"

definition SETTINGS_SCHEMA :: "column list" where
  \<comment> \<open>\<^verbatim>\<open>key TEXT PRIMARY KEY, value TEXT, updated_at INTEGER\<close>\<close>
  "SETTINGS_SCHEMA =
     [\<lparr>cname = ''key'', ctype = TEXT, cconstraint = PrimaryKey\<rparr>,
      \<lparr>cname = ''value'', ctype = TEXT, cconstraint = Plain\<rparr>,
      \<lparr>cname = ''updated_at'', ctype = INTEGER, cconstraint = Plain\<rparr>]"

text \<open>A stub is the handle of a named instance; \<open>None\<close> is the source's \<^verbatim>\<open>null\<close>.\<close>

definition getDurableObjectStub :: "world \<Rightarrow> string \<Rightarrow> string option" where
  "getDurableObjectStub w instanceName = (if \<not> binding w then None else Some instanceName)"

definition not_available :: string where
  "not_available = ''Durable Object is not available''"

definition createTableIfNotExists ::
    "string option \<Rightarrow> string \<Rightarrow> column list \<Rightarrow> world \<Rightarrow> (string + bool) \<times> world" where
  "createTableIfNotExists stub tableName schema w =
     (case stub of
        None \<Rightarrow> (Inl not_available, w)
      | Some inst \<Rightarrow>
          (case run inst (CreateTableIfNotExists tableName schema) [] w of
             (result, w') \<Rightarrow>
               if \<not> run_success result
               then (Inl (or_default (run_error result) ''Failed to create table''), w')
               else (Inr True, w')))"

definition getSetting ::
    "string option \<Rightarrow> string \<Rightarrow> string \<Rightarrow> world \<Rightarrow> (string + row option) \<times> world" where
  "getSetting stub tableName k w =
     (case stub of
        None \<Rightarrow> (Inl not_available, w)
      | Some inst \<Rightarrow>
          (case first inst (SelectWhere tableName ''key'') [SqlText k] w of
             (result, w') \<Rightarrow>
               if truthy_str (first_error result) then (Inl (the (first_error result)), w')
               else (Inr (first_row result), w')))"

definition getAllSettings ::
    "string option \<Rightarrow> string \<Rightarrow> world \<Rightarrow> (string + row list) \<times> world" where
  "getAllSettings stub tableName w =
     (case stub of
        None \<Rightarrow> (Inl not_available, w)
      | Some inst \<Rightarrow>
          (case all inst (SelectAllOrderByDesc tableName ''updated_at'') [] w of
             (result, w') \<Rightarrow>
               if truthy_str (all_error result) then (Inl (the (all_error result)), w')
               else (Inr (all_results result), w')))"

definition updateSetting ::
    "string option \<Rightarrow> string \<Rightarrow> string \<Rightarrow> string \<Rightarrow> world \<Rightarrow> (string + bool) \<times> world" where
  "updateSetting stub tableName k v w =
     (case stub of
        None \<Rightarrow> (Inl not_available, w)
      | Some inst \<Rightarrow>
          (let timestamp = now w in
           case run inst (InsertOrReplace tableName [''key'', ''value'', ''updated_at''])
                  [SqlText k, SqlText v, SqlInt timestamp] w of
             (result, w') \<Rightarrow>
               if \<not> run_success result
               then (Inl (or_default (run_error result) ''Failed to update setting''), w')
               else (Inr True, w')))"

record settings_data =
  d_key :: string
  d_name :: string
  d_instanceName :: string
  d_tableName :: string
  isChecked :: bool
  dbAvailable :: bool
  allSettings :: "row list"
  d_error :: "string option"

definition checkbox_checked :: "row list \<Rightarrow> string \<Rightarrow> bool" where
  \<comment> \<open>\<^verbatim>\<open>allSettings.find(s => s.key === settingKey)?.value === "true"\<close>\<close>
  "checkbox_checked rows settingKey =
     (case find (\<lambda>s. field ''key'' s = SqlText settingKey) rows of
        None \<Rightarrow> False
      | Some s \<Rightarrow> field ''value'' s = SqlText ''true'')"

definition table_missing :: "string \<Rightarrow> bool" where
  \<comment> \<open>the guard of the retry, on \<^verbatim>\<open>error.message\<close>\<close>
  "table_missing msg =
     (msg \<noteq> [] \<and> (includes_str msg ''no such table'' \<or> includes_str msg ''does not exist''))"

definition loadDatabaseSettings :: "database_config \<Rightarrow> world \<Rightarrow> settings_data \<times> world" where
  "loadDatabaseSettings config w =
     (let stub = getDurableObjectStub w (cfg_instanceName config);
          data = \<lparr>d_key = cfg_key config, d_name = cfg_name config,
                  d_instanceName = cfg_instanceName config, d_tableName = cfg_tableName config,
                  isChecked = False, dbAvailable = False, allSettings = [], d_error = None\<rparr>
      in
      if stub = None
      then (data\<lparr>d_error := Some (''Durable Object instance '' @ cfg_instanceName config
                                   @ '' is not available'')\<rparr>, w)
      else
        (case getAllSettings stub (cfg_tableName config) w of
           (Inr settings, w1) \<Rightarrow>
             (data\<lparr>isChecked := checkbox_checked settings (cfg_settingKey config),
                   dbAvailable := True, allSettings := settings, d_error := None\<rparr>, w1)
         | (Inl msg, w1) \<Rightarrow>
             if table_missing msg
             then
               (case createTableIfNotExists stub (cfg_tableName config) SETTINGS_SCHEMA w1 of
                  (Inl retryError, w2) \<Rightarrow> (data\<lparr>d_error := Some retryError\<rparr>, w2)
                | (Inr _, w2) \<Rightarrow>
                    (case getAllSettings stub (cfg_tableName config) w2 of
                       (Inl retryError, w3) \<Rightarrow> (data\<lparr>d_error := Some retryError\<rparr>, w3)
                     | (Inr settings, w3) \<Rightarrow>
                         (data\<lparr>isChecked := False, dbAvailable := True,
                               allSettings := settings, d_error := None\<rparr>, w3)))
             else (data\<lparr>d_error := Some msg\<rparr>, w1)))"

datatype update_result =
    UpdateSuccess string bool "row list"
      \<comment> \<open>\<^verbatim>\<open>{ success: true, dbKey, isChecked, allSettings }\<close>\<close>
  | UpdateFailure string
      \<comment> \<open>\<^verbatim>\<open>{ success: false, error }\<close>\<close>

definition find_config :: "string \<Rightarrow> database_config option" where
  \<comment> \<open>\<^verbatim>\<open>DATABASE_CONFIG.find(c => c.key === dbKey)\<close>\<close>
  "find_config dbKey = find (\<lambda>c. cfg_key c = dbKey) DATABASE_CONFIG"

definition instance_unavailable :: "database_config \<Rightarrow> string" where
  "instance_unavailable config =
     ''Durable Object instance '' @ cfg_instanceName config @ '' is not available''"

definition updateDatabaseSetting :: "string \<Rightarrow> bool \<Rightarrow> world \<Rightarrow> update_result \<times> world" where
  "updateDatabaseSetting dbKey checked w =
     (case find_config dbKey of
        None \<Rightarrow> (UpdateFailure ''Invalid database key'', w)
      | Some config \<Rightarrow>
          (let stub = getDurableObjectStub w (cfg_instanceName config) in
           if stub = None then (UpdateFailure (instance_unavailable config), w)
           else
             (let stringValue = (if checked then ''true'' else ''false'') in
              case updateSetting stub (cfg_tableName config) (cfg_settingKey config)
                     stringValue w of
                (Inl msg, w1) \<Rightarrow> (UpdateFailure msg, w1)
              | (Inr _, w1) \<Rightarrow>
                  (case getAllSettings stub (cfg_tableName config) w1 of
                     (Inl msg, w2) \<Rightarrow> (UpdateFailure msg, w2)
                   | (Inr settings, w2) \<Rightarrow> (UpdateSuccess dbKey checked settings, w2)))))"

datatype clear_result =
    ClearSuccess string string
      \<comment> \<open>\<^verbatim>\<open>{ success: true, dbKey, message }\<close>\<close>
  | ClearFailure string
      \<comment> \<open>\<^verbatim>\<open>{ success: false, error }\<close>\<close>

definition clearDatabaseSettings :: "string \<Rightarrow> world \<Rightarrow> clear_result \<times> world" where
  "clearDatabaseSettings dbKey w =
     (case find_config dbKey of
        None \<Rightarrow> (ClearFailure ''Invalid database key'', w)
      | Some config \<Rightarrow>
          (let stub = getDurableObjectStub w (cfg_instanceName config) in
           case stub of
             None \<Rightarrow> (ClearFailure (instance_unavailable config), w)
           | Some inst \<Rightarrow>
               (case run inst (DeleteAll (cfg_tableName config)) [] w of
                  (result, w1) \<Rightarrow>
                    if truthy_str (run_error result)
                    then (ClearFailure (the (run_error result)), w1)
                    else (ClearSuccess dbKey
                            (''All settings cleared from '' @ cfg_name config), w1))))"

section \<open>The session adapter (shopifySessionDb)\<close>

text \<open>
  The \<^verbatim>\<open>Session\<close> the authentication library hands to \<^verbatim>\<open>storeSession\<close>, with the
  types its class declares. \<^verbatim>\<open>expires\<close> is a \<^verbatim>\<open>Date\<close>, held as its epoch milliseconds
  (\<^verbatim>\<open>getTime()\<close>); \<^verbatim>\<open>onlineAccessInfo\<close> is an object of a type \<open>'j\<close> that
  \<^verbatim>\<open>JSON.stringify\<close> and \<^verbatim>\<open>JSON.parse\<close> handle. Both functions belong to the language
  runtime, so they are parameters of the adapter: \<open>parse\<close> takes the raw column value
  and gives \<open>None\<close> where \<^verbatim>\<open>JSON.parse\<close> raises.
\<close>

record 'j session =
  s_id :: string
  s_shop :: string
  s_state :: string
  s_isOnline :: bool
  s_scope :: "string option"
  s_accessToken :: "string option"
  s_expires :: "int option"
  s_onlineAccessInfo :: "'j option"

record 'j json =
  stringify :: "'j \<Rightarrow> string"
  parse :: "sqlval \<Rightarrow> 'j option"

text \<open>
  The \<^verbatim>\<open>Session\<close> that \<^verbatim>\<open>loadSession\<close> and \<^verbatim>\<open>findSessionsByShop\<close> build from a row.
  The casts \<^verbatim>\<open>row.id as string\<close> are unchecked, so these fields hold the column value as
  it is stored; \<open>js_expires = Some v\<close> is \<^verbatim>\<open>new Date(v)\<close>, and \<open>None\<close> is a field left
  unset.
\<close>

record 'j js_session =
  js_id :: sqlval
  js_shop :: sqlval
  js_state :: sqlval
  js_isOnline :: bool
  js_scope :: sqlval
  js_accessToken :: sqlval
  js_expires :: "sqlval option"
  js_onlineAccessInfo :: "'j option"

definition opt_text :: "string option \<Rightarrow> sqlval" where
  "opt_text x = (case x of None \<Rightarrow> SqlNull | Some t \<Rightarrow> SqlText t)"

definition as_loaded :: "'j session \<Rightarrow> 'j js_session" where
  \<comment> \<open>the object equal to \<open>s\<close> field by field; an absent string reads back as null\<close>
  "as_loaded s =
     \<lparr>js_id = SqlText (s_id s), js_shop = SqlText (s_shop s), js_state = SqlText (s_state s),
      js_isOnline = s_isOnline s, js_scope = opt_text (s_scope s),
      js_accessToken = opt_text (s_accessToken s),
      js_expires = map_option SqlInt (s_expires s),
      js_onlineAccessInfo = s_onlineAccessInfo s\<rparr>"

definition SHOPIFY_SESSION_CONFIG_tableName :: string where
  "SHOPIFY_SESSION_CONFIG_tableName = ''shopify_sessions''"

definition SESSION_SCHEMA :: "column list" where
  "SESSION_SCHEMA =
     [\<lparr>cname = ''id'', ctype = TEXT, cconstraint = PrimaryKey\<rparr>,
      \<lparr>cname = ''shop'', ctype = TEXT, cconstraint = NotNull\<rparr>,
      \<lparr>cname = ''state'', ctype = TEXT, cconstraint = Plain\<rparr>,
      \<lparr>cname = ''isOnline'', ctype = INTEGER, cconstraint = Plain\<rparr>,
      \<lparr>cname = ''scope'', ctype = TEXT, cconstraint = Plain\<rparr>,
      \<lparr>cname = ''accessToken'', ctype = TEXT, cconstraint = Plain\<rparr>,
      \<lparr>cname = ''expires'', ctype = INTEGER, cconstraint = Plain\<rparr>,
      \<lparr>cname = ''onlineAccessInfo'', ctype = TEXT, cconstraint = Plain\<rparr>]"

definition SESSION_COLUMNS :: "string list" where
  "SESSION_COLUMNS =
     [''id'', ''shop'', ''state'', ''isOnline'', ''scope'', ''accessToken'', ''expires'',
      ''onlineAccessInfo'']"

definition name_char :: "char \<Rightarrow> bool" where
  \<comment> \<open>the class \<^verbatim>\<open>[a-zA-Z0-9-]\<close>\<close>
  "name_char c =
     (c \<in> set ''abcdefghijklmnopqrstuvwxyzABCDEFGHIJKLMNOPQRSTUVWXYZ0123456789-'')"

definition cleanShop :: "string \<Rightarrow> string" where
  \<comment> \<open>\<^verbatim>\<open>shop.replace(/[^a-zA-Z0-9-]/g, '-')\<close>\<close>
  "cleanShop shop = map (\<lambda>c. if name_char c then c else CHR ''-'') shop"

definition getShopifySessionInstanceName :: "string \<Rightarrow> string" where
  "getShopifySessionInstanceName shop = ''shopify-sessions-'' @ cleanShop shop"

definition getShopifySessionsStub :: "world \<Rightarrow> string \<Rightarrow> string option" where
  "getShopifySessionsStub w shop =
     (if \<not> binding w then None else Some (getShopifySessionInstanceName shop))"

definition extractShopFromSessionId :: "string \<Rightarrow> string option" where
  "extractShopFromSessionId sessionId =
     (let parts = split_on CHR ''_'' sessionId in
      if length parts \<ge> 2
      then
        (let shopPart = parts ! 1;
             shopPart' = (if CHR ''_'' \<in> set shopPart
                          then split_on CHR ''_'' shopPart ! 0 else shopPart)
         in Some shopPart')
      else None)"

definition falsy_shop :: "string option \<Rightarrow> bool" where
  \<comment> \<open>\<^verbatim>\<open>if (!shop)\<close>: null and the empty string\<close>
  "falsy_shop shop = (case shop of None \<Rightarrow> True | Some s \<Rightarrow> s = [])"

definition initializeTable :: "string \<Rightarrow> world \<Rightarrow> bool \<times> world" where
  "initializeTable shop w =
     (case getShopifySessionsStub w shop of
        None \<Rightarrow> (False, w)
      | Some inst \<Rightarrow>
          (case run inst (CreateTableIfNotExists SHOPIFY_SESSION_CONFIG_tableName SESSION_SCHEMA)
                  [] w of
             (result, w') \<Rightarrow> (run_success result, w')))"

definition session_params :: "'j json \<Rightarrow> 'j session \<Rightarrow> sqlval list" where
  \<comment> \<open>the eight values \<^verbatim>\<open>storeSession\<close> binds\<close>
  "session_params J session =
     [SqlText (s_id session),
      SqlText (s_shop session),
      SqlText (s_state session),
      SqlInt (if s_isOnline session then 1 else 0),
      opt_text (s_scope session),
      opt_text (s_accessToken session),
      (case s_expires session of Some t \<Rightarrow> SqlInt t | None \<Rightarrow> SqlNull),
      (case s_onlineAccessInfo session of
         Some info \<Rightarrow> SqlText (stringify J info) | None \<Rightarrow> SqlNull)]"

definition storeSession :: "'j json \<Rightarrow> 'j session \<Rightarrow> world \<Rightarrow> bool \<times> world" where
  "storeSession J session w =
     (case getShopifySessionsStub w (s_shop session) of
        None \<Rightarrow> (False, w)
      | Some inst \<Rightarrow>
          (case initializeTable (s_shop session) w of
             (_, w1) \<Rightarrow>
               (case run inst (InsertOrReplace SHOPIFY_SESSION_CONFIG_tableName SESSION_COLUMNS)
                       (session_params J session) w1 of
                  (result, w2) \<Rightarrow> (run_success result, w2))))"

definition session_of_row :: "'j json \<Rightarrow> row \<Rightarrow> 'j js_session option" where
  \<comment> \<open>the statements from \<^verbatim>\<open>new Session({...})\<close> to \<^verbatim>\<open>return session\<close>, which the source
      has once in \<^verbatim>\<open>loadSession\<close> and once in \<^verbatim>\<open>findSessionsByShop\<close>; \<open>None\<close> is the
      error \<^verbatim>\<open>JSON.parse\<close> raises\<close>
  "session_of_row J r =
     (let session = \<lparr>js_id = field ''id'' r, js_shop = field ''shop'' r,
                      js_state = field ''state'' r, js_isOnline = truthy (field ''isOnline'' r),
                      js_scope = field ''scope'' r, js_accessToken = field ''accessToken'' r,
                      js_expires = None, js_onlineAccessInfo = None\<rparr>;
          session1 = (if truthy (field ''expires'' r)
                      then session\<lparr>js_expires := Some (field ''expires'' r)\<rparr> else session)
      in
      if truthy (field ''onlineAccessInfo'' r)
      then (case parse J (field ''onlineAccessInfo'' r) of
              None \<Rightarrow> None
            | Some info \<Rightarrow> Some (session1\<lparr>js_onlineAccessInfo := Some info\<rparr>))
      else Some session1)"

definition loadSession :: "'j json \<Rightarrow> string \<Rightarrow> world \<Rightarrow> 'j js_session option \<times> world" where
  "loadSession J sid w =
     (let shop = extractShopFromSessionId sid in
      if falsy_shop shop then (None, w)
      else
        (case getShopifySessionsStub w (the shop) of
           None \<Rightarrow> (None, w)
         | Some inst \<Rightarrow>
             (case first inst (SelectWhere SHOPIFY_SESSION_CONFIG_tableName ''id'')
                     [SqlText sid] w of
                (result, w') \<Rightarrow>
                  if truthy_str (first_error result) then (None, w')
                  else
                    (case first_row result of
                       None \<Rightarrow> (None, w')
                     | Some r \<Rightarrow> (session_of_row J r, w')))))"

definition deleteSession :: "string \<Rightarrow> world \<Rightarrow> bool \<times> world" where
  "deleteSession sid w =
     (let shop = extractShopFromSessionId sid in
      if falsy_shop shop then (False, w)
      else
        (case getShopifySessionsStub w (the shop) of
           None \<Rightarrow> (False, w)
         | Some inst \<Rightarrow>
             (case run inst (DeleteWhere SHOPIFY_SESSION_CONFIG_tableName ''id'')
                     [SqlText sid] w of
                (result, w') \<Rightarrow> (run_success result, w'))))"

fun deleteSessions :: "string list \<Rightarrow> world \<Rightarrow> bool \<times> world" where
  "deleteSessions [] w = (True, w)"
| "deleteSessions (sid # ids) w =
     (case deleteSession sid w of
        (success, w') \<Rightarrow> if \<not> success then (False, w') else deleteSessions ids w')"

fun map_rows :: "(row \<Rightarrow> 'a option) \<Rightarrow> row list \<Rightarrow> 'a list option" where
  \<comment> \<open>\<^verbatim>\<open>results.map(f)\<close> where \<open>f\<close> may raise: the first error ends the whole map\<close>
  "map_rows f [] = Some []"
| "map_rows f (r # rs) =
     (case f r of
        None \<Rightarrow> None
      | Some x \<Rightarrow> (case map_rows f rs of None \<Rightarrow> None | Some xs \<Rightarrow> Some (x # xs)))"

definition findSessionsByShop :: "'j json \<Rightarrow> string \<Rightarrow> world \<Rightarrow> 'j js_session list \<times> world" where
  "findSessionsByShop J shop w =
     (case getShopifySessionsStub w shop of
        None \<Rightarrow> ([], w)
      | Some inst \<Rightarrow>
          (case all inst (SelectWhere SHOPIFY_SESSION_CONFIG_tableName ''shop'') [SqlText shop] w of
             (result, w') \<Rightarrow>
               if truthy_str (all_error result) then ([], w')
               else
                 (case map_rows (session_of_row J) (all_results result) of
                    None \<Rightarrow> ([], w')
                  | Some sessions \<Rightarrow> (sessions, w'))))"

section \<open>Notions used to state the properties\<close>

text \<open>
  A string cut at the first occurrence of a character.
\<close>

definition truncate_at :: "char \<Rightarrow> string \<Rightarrow> string" where
  "truncate_at d s = takeWhile (\<lambda>c. c \<noteq> d) s"

text \<open>
  The extraction without the second cut: the second segment as it is.
\<close>

definition extractShop_simple :: "string \<Rightarrow> string option" where
  "extractShop_simple sessionId =
     (let parts = split_on CHR ''_'' sessionId in
      if length parts \<ge> 2 then Some (parts ! 1) else None)"

text \<open>
  The shapes of the record \<^verbatim>\<open>loadDatabaseSettings\<close> returns: the initial one, the one of
  a successful read and the one of a recorded error.
\<close>

definition base_data :: "database_config \<Rightarrow> settings_data" where
  "base_data config =
     \<lparr>d_key = cfg_key config, d_name = cfg_name config,
      d_instanceName = cfg_instanceName config, d_tableName = cfg_tableName config,
      isChecked = False, dbAvailable = False, allSettings = [], d_error = None\<rparr>"

definition loaded_data :: "database_config \<Rightarrow> row list \<Rightarrow> bool \<Rightarrow> settings_data" where
  "loaded_data config settings checked =
     (base_data config)\<lparr>isChecked := checked, dbAvailable := True, allSettings := settings\<rparr>"

definition failed_data :: "database_config \<Rightarrow> string \<Rightarrow> settings_data" where
  "failed_data config msg = (base_data config)\<lparr>d_error := Some msg\<rparr>"

text \<open>
  The two patterns of the retry, and the two calls \<^verbatim>\<open>loadDatabaseSettings\<close> makes.
\<close>

definition mentions_missing_table :: "string \<Rightarrow> bool" where
  "mentions_missing_table msg =
     (includes_str msg ''no such table'' \<or> includes_str msg ''does not exist'')"

definition read_all_call :: "database_config \<Rightarrow> call" where
  "read_all_call config =
     (cfg_instanceName config, SelectAllOrderByDesc (cfg_tableName config) ''updated_at'', [])"

definition create_call :: "database_config \<Rightarrow> call" where
  "create_call config =
     (cfg_instanceName config, CreateTableIfNotExists (cfg_tableName config) SETTINGS_SCHEMA, [])"

text \<open>
  An instance holds a session id when its sessions table has a row with that id;
  \<open>session_instance\<close> is the instance an id is routed to, \<open>delete_call\<close> the call that
  deletes it.
\<close>

definition held :: "world \<Rightarrow> string \<Rightarrow> string \<Rightarrow> bool" where
  "held w inst sid =
     (case storage w inst SHOPIFY_SESSION_CONFIG_tableName of
        None \<Rightarrow> False
      | Some tb \<Rightarrow> list_ex (\<lambda>r. sql_eq (field ''id'' r) (SqlText sid)) (trows tb))"

definition session_instance :: "string \<Rightarrow> string" where
  "session_instance sid = getShopifySessionInstanceName (the (extractShopFromSessionId sid))"

definition delete_call :: "string \<Rightarrow> call" where
  "delete_call sid =
     (session_instance sid, DeleteWhere SHOPIFY_SESSION_CONFIG_tableName ''id'', [SqlText sid])"

text \<open>
  The storage after the rows of one id have been deleted from its instance.
\<close>

definition after_delete :: "(string \<Rightarrow> database) \<Rightarrow> string \<Rightarrow> (string \<Rightarrow> database) \<Rightarrow> bool" where
  "after_delete st sid st' =
     (\<exists>tb. st (session_instance sid) SHOPIFY_SESSION_CONFIG_tableName = Some tb
        \<and> st' = st(session_instance sid :=
             (st (session_instance sid))(SHOPIFY_SESSION_CONFIG_tableName \<mapsto>
                tb\<lparr>trows := filter (\<lambda>r. \<not> sql_eq (field ''id'' r) (SqlText sid)) (trows tb)\<rparr>)))"

text \<open>
  Concrete worlds and sessions, to run the definitions on: a world with no instance
  created yet, the first configured database, a toy \<open>JSON\<close> over object bodies, and a
  tenant with three stored sessions.
\<close>

definition fresh_world :: world where
  "fresh_world = \<lparr>binding = True, storage = (\<lambda>_. Map.empty), now = 1700000000000,
                   faults = [], calls = []\<rparr>"

definition db1 :: database_config where
  "db1 = \<lparr>cfg_key = ''DB1'', cfg_name = ''Primary Database'', cfg_instanceName = ''database-1'',
       cfg_tableName = ''settings'', cfg_settingKey = ''test_checkbox_db1''\<rparr>"

definition text_json :: "string json" where
  "text_json =
     \<lparr>stringify = (\<lambda>j. ''{'' @ j @ ''}''),
      parse = (\<lambda>v. case v of
                 SqlText s \<Rightarrow>
                   (if 2 \<le> length s \<and> hd s = CHR ''{'' \<and> last s = CHR ''}''
                    then Some (butlast (tl s)) else None)
               | _ \<Rightarrow> None)\<rparr>"

text \<open>
  The row \<^verbatim>\<open>storeSession\<close> writes for a session.
\<close>

definition session_row :: "'j json \<Rightarrow> 'j session \<Rightarrow> row" where
  "session_row J s = zip SESSION_COLUMNS (session_params J s)"

definition offline_session :: "string session" where
  "offline_session =
     \<lparr>s_id = ''offline_a.myshopify.com'', s_shop = ''a.myshopify.com'', s_state = ''st0'',
      s_isOnline = False, s_scope = Some ''read_products'', s_accessToken = Some ''tok0'',
      s_expires = None, s_onlineAccessInfo = None\<rparr>"

definition online_session :: "string \<Rightarrow> string session" where
  "online_session user =
     \<lparr>s_id = ''online_a.myshopify.com_'' @ user, s_shop = ''a.myshopify.com'', s_state = ''st1'',
      s_isOnline = True, s_scope = Some ''read_products'', s_accessToken = None,
      s_expires = Some 1700000360000, s_onlineAccessInfo = Some (''user:'' @ user)\<rparr>"

definition shop_a_instance :: string where
  "shop_a_instance = ''shopify-sessions-a-myshopify-com''"

definition three_sessions_world :: world where
  "three_sessions_world =
     \<lparr>binding = True,
      storage = (\<lambda>_. Map.empty)
        (shop_a_instance :=
           [SHOPIFY_SESSION_CONFIG_tableName \<mapsto>
              \<lparr>tcols = SESSION_SCHEMA,
               trows = [session_row text_json offline_session,
                        session_row text_json (online_session ''1''),
                        session_row text_json (online_session ''2'')]\<rparr>]),
      now = 1700000000000,
      faults = [None, Some ''disk I/O error''],
      calls = []\<rparr>"

text \<open>
  A world without the storage binding.
\<close>

definition unbound_world :: world where
  "unbound_world = \<lparr>binding = False, storage = (\<lambda>_. Map.empty), now = 1700000000000,
                     faults = [], calls = []\<rparr>"

text \<open>
  The session decoded from a row with \<^verbatim>\<open>expires\<close> and \<^verbatim>\<open>onlineAccessInfo\<close> left unset, the
  two queries of the adapter that read sessions, and a stored session that expires at the
  epoch instant 0.
\<close>

definition raw_session :: "row \<Rightarrow> 'j js_session" where
  "raw_session r =
     \<lparr>js_id = field ''id'' r, js_shop = field ''shop'' r, js_state = field ''state'' r,
      js_isOnline = truthy (field ''isOnline'' r), js_scope = field ''scope'' r,
      js_accessToken = field ''accessToken'' r, js_expires = None,
      js_onlineAccessInfo = None\<rparr>"

definition select_by_id :: query where
  "select_by_id = SelectWhere SHOPIFY_SESSION_CONFIG_tableName ''id''"

definition select_by_shop :: query where
  "select_by_shop = SelectWhere SHOPIFY_SESSION_CONFIG_tableName ''shop''"

definition epoch_session :: "string session" where
  "epoch_session =
     \<lparr>s_id = ''online_a.myshopify.com_7'', s_shop = ''a.myshopify.com'', s_state = ''st7'',
      s_isOnline = True, s_scope = Some ''read_products'', s_accessToken = Some ''tok7'',
      s_expires = Some 0, s_onlineAccessInfo = None\<rparr>"

definition epoch_world :: world where
  "epoch_world =
     \<lparr>binding = True,
      storage = (\<lambda>_. Map.empty)
        (shop_a_instance :=
           [SHOPIFY_SESSION_CONFIG_tableName \<mapsto>
              \<lparr>tcols = SESSION_SCHEMA, trows = [session_row text_json epoch_session]\<rparr>]),
      now = 1700000000000, faults = [], calls = []\<rparr>"

text \<open>
  The row \<^verbatim>\<open>updateSetting\<close> writes, the rows of a table, whether a table exists with a
  given schema, and the rows of a table with and without a given key.
\<close>

definition setting_row :: "string \<Rightarrow> string \<Rightarrow> int \<Rightarrow> row" where
  "setting_row k v t = [(''key'', SqlText k), (''value'', SqlText v), (''updated_at'', SqlInt t)]"

definition table_rows :: "world \<Rightarrow> string \<Rightarrow> string \<Rightarrow> row list" where
  "table_rows w inst t = (case storage w inst t of None \<Rightarrow> [] | Some tb \<Rightarrow> trows tb)"

definition has_schema :: "world \<Rightarrow> string \<Rightarrow> string \<Rightarrow> column list \<Rightarrow> bool" where
  "has_schema w inst t schema =
     (case storage w inst t of None \<Rightarrow> False | Some tb \<Rightarrow> tcols tb = schema)"

definition rows_for :: "string \<Rightarrow> row list \<Rightarrow> row list" where
  "rows_for k rows = filter (\<lambda>r. field ''key'' r = SqlText k) rows"

definition other_rows :: "string \<Rightarrow> row list \<Rightarrow> row list" where
  "other_rows k rows = filter (\<lambda>r. field ''key'' r \<noteq> SqlText k) rows"

text \<open>
  Every error scheduled for \<^verbatim>\<open>sql.exec\<close> carries a message that is not empty, as the
  errors of the engine do.
\<close>

definition faults_have_messages :: "world \<Rightarrow> bool" where
  "faults_have_messages w = list_all (\<lambda>f. f \<noteq> Some []) (faults w)"

text \<open>
  A world whose first database holds two settings.
\<close>

definition settings_world :: world where
  "settings_world =
     \<lparr>binding = True,
      storage = (\<lambda>_. Map.empty)
        (''database-1'' :=
           [''settings'' \<mapsto>
              \<lparr>tcols = SETTINGS_SCHEMA,
               trows = [setting_row ''theme'' ''dark'' 1600000000000,
                        setting_row ''test_checkbox_db1'' ''false'' 1650000000000]\<rparr>]),
      now = 1700000000000, faults = [], calls = []\<rparr>"

text \<open>
  The conditions of the round trip: the sessions table of an instance is absent or has
  the schema of the adapter; the shop extracted from the id of a session leads to the
  instance of its shop; the \<open>JSON\<close> text of \<^verbatim>\<open>onlineAccessInfo\<close> is not empty and parses
  back.
\<close>

definition sessions_table_ok :: "world \<Rightarrow> string \<Rightarrow> bool" where
  "sessions_table_ok w inst =
     (case storage w inst SHOPIFY_SESSION_CONFIG_tableName of
        None \<Rightarrow> True
      | Some tb \<Rightarrow> tcols tb = SESSION_SCHEMA)"

definition routes_home :: "'j session \<Rightarrow> bool" where
  "routes_home s =
     (case extractShopFromSessionId (s_id s) of
        None \<Rightarrow> False
      | Some shop \<Rightarrow>
          shop \<noteq> [] \<and> getShopifySessionInstanceName shop = getShopifySessionInstanceName (s_shop s))"

definition json_round_trip :: "'j json \<Rightarrow> 'j session \<Rightarrow> bool" where
  "json_round_trip J s =
     (case s_onlineAccessInfo s of
        None \<Rightarrow> True
      | Some info \<Rightarrow>
          stringify J info \<noteq> [] \<and> parse J (SqlText (stringify J info)) = Some info)"

text \<open>
  A session whose id does not carry its shop.
\<close>

definition stray_session :: "string session" where
  "stray_session =
     \<lparr>s_id = ''session-42'', s_shop = ''a.myshopify.com'', s_state = ''st42'',
      s_isOnline = False, s_scope = Some ''read_products'', s_accessToken = Some ''tok42'',
      s_expires = None, s_onlineAccessInfo = None\<rparr>"

section \<open>Properties\<close>

subsection \<open>Rules to evaluate the definitions\<close>

lemmas world_eval = sql_exec_def next_fault_def run_def first_def all_def Let_def
  truthy_str_def or_default_def no_such_table_def has_column_def

lemmas session_eval = deleteSession_def extractShopFromSessionId_def falsy_shop_def
  getShopifySessionsStub_def getShopifySessionInstanceName_def cleanShop_def name_char_def
  SHOPIFY_SESSION_CONFIG_tableName_def SESSION_SCHEMA_def SESSION_COLUMNS_def session_row_def
  session_params_def opt_text_def field_def sql_eq_def

lemmas witness_data = three_sessions_world_def epoch_world_def shop_a_instance_def
  offline_session_def online_session_def epoch_session_def text_json_def

lemmas settings_eval = updateDatabaseSetting_def updateSetting_def getAllSettings_def
  find_config_def DATABASE_CONFIG_def getDurableObjectStub_def SETTINGS_SCHEMA_def
  setting_row_def field_def sql_eq_def make_row_def conflicts_def pk_columns_def
  notnull_columns_def

lemmas store_eval = storeSession_def initializeTable_def loadSession_def session_of_row_def
  make_row_def conflicts_def pk_columns_def notnull_columns_def truthy_def as_loaded_def
  fresh_world_def

subsection \<open>Lemmas and theorems\<close>

lemma split_on_nonempty: "split_on d s \<noteq> []"
  by (induction s) (auto split: list.splits)

lemma split_on_head: "split_on d s ! 0 = takeWhile (\<lambda>c. c \<noteq> d) s"
  by (induction s) (auto split: list.splits simp: split_on_nonempty)

lemma split_on_tail: "tl (split_on d s) = (if d \<in> set s then split_on d (tl (dropWhile (\<lambda>c. c \<noteq> d) s)) else [])"
  by (induction s) (auto split: list.splits simp: split_on_nonempty)

lemma split_on_parts_free: "p \<in> set (split_on d s) \<Longrightarrow> d \<notin> set p"
  by (induction s arbitrary: p) (auto split: list.splits if_splits)

lemma split_on_length: "length (split_on d s) = Suc (length (filter (\<lambda>c. c = d) s))"
  by (induction s) (auto split: list.splits simp: split_on_nonempty)

lemma split_on_two: "(2 \<le> length (split_on d s)) = (d \<in> set s)"
proof -
  have "(filter (\<lambda>c. c = d) s \<noteq> []) = (d \<in> set s)"
    by (auto simp: filter_empty_conv)
  then show ?thesis
    by (cases "filter (\<lambda>c. c = d) s") (auto simp: split_on_length)
qed

lemma split_on_second: "d \<in> set s \<Longrightarrow> split_on d s ! 1 = takeWhile (\<lambda>c. c \<noteq> d) (tl (dropWhile (\<lambda>c. c \<noteq> d) s))"
proof -
  assume a: "d \<in> set s"
  have "split_on d s ! 1 = tl (split_on d s) ! 0"
    using split_on_nonempty[of d s] by (cases "split_on d s") auto
  then show ?thesis using a by (simp add: split_on_tail split_on_head)
qed

lemma ex1: "extractShopFromSessionId ''offline_my-shop.myshopify.com'' = Some ''my-shop.myshopify.com''"
  by (simp add: extractShopFromSessionId_def)

lemma truncate_part: "(if d \<in> set p then split_on d p ! 0 else p) = truncate_at d p"
proof (cases "d \<in> set p")
  case True
  then show ?thesis by (simp add: truncate_at_def split_on_head)
next
  case False
  then have "takeWhile (\<lambda>c. c \<noteq> d) p = p"
    by (intro takeWhile_eq_all_conv[THEN iffD2]) auto
  then show ?thesis using False unfolding truncate_at_def by (simp only: if_False)
qed

text \<open>
  \<^bold>\<open>C2.\<close> \<^verbatim>\<open>extractShopFromSessionId\<close> splits the id on \<^verbatim>\<open>_\<close>. With two segments or more it
  returns the second one, cut at its own \<^verbatim>\<open>_\<close> if it has one; with fewer it returns null.
  The three ids of the specification give the results stated there.
\<close>

theorem extractShop_segments:
  "(2 \<le> length (split_on CHR ''_'' sid) \<longrightarrow>
      extractShopFromSessionId sid = Some (truncate_at CHR ''_'' (split_on CHR ''_'' sid ! 1)))
   \<and> (length (split_on CHR ''_'' sid) < 2 \<longrightarrow> extractShopFromSessionId sid = None)
   \<and> extractShopFromSessionId ''offline_my-shop.myshopify.com'' = Some ''my-shop.myshopify.com''
   \<and> extractShopFromSessionId ''online_my-shop.myshopify.com_12345'' = Some ''my-shop.myshopify.com''
   \<and> extractShopFromSessionId ''malformed'' = None"
proof -
  have a: "2 \<le> length (split_on CHR ''_'' sid) \<longrightarrow>
      extractShopFromSessionId sid = Some (truncate_at CHR ''_'' (split_on CHR ''_'' sid ! 1))"
    by (simp add: extractShopFromSessionId_def Let_def truncate_part del: split_on.simps)
  have b: "length (split_on CHR ''_'' sid) < 2 \<longrightarrow> extractShopFromSessionId sid = None"
    by (simp add: extractShopFromSessionId_def Let_def del: split_on.simps)
  have c: "extractShopFromSessionId ''offline_my-shop.myshopify.com'' = Some ''my-shop.myshopify.com''"
    by (simp add: extractShopFromSessionId_def)
  have d: "extractShopFromSessionId ''online_my-shop.myshopify.com_12345'' = Some ''my-shop.myshopify.com''"
    by (simp add: extractShopFromSessionId_def)
  have e: "extractShopFromSessionId ''malformed'' = None"
    by (simp add: extractShopFromSessionId_def)
  from a b c d e show ?thesis by blast
qed

theorem extractShop_segments_witness:
  "2 \<le> length (split_on CHR ''_'' ''a_b_c'') \<and> extractShopFromSessionId ''a_b_c'' = Some ''b''
   \<and> length (split_on CHR ''_'' ''abc'') < 2 \<and> extractShopFromSessionId ''abc'' = None"
  using extractShop_segments [of "''a_b_c''"] extractShop_segments [of "''abc''"]
  by (simp add: truncate_at_def)

text \<open>
  \<^bold>\<open>C9.\<close> \<^verbatim>\<open>extractShopFromSessionId\<close> computes the same result as the function that
  returns the second segment as it is: no segment of a split on \<^verbatim>\<open>_\<close> contains \<^verbatim>\<open>_\<close>,
  so the branch that cuts the segment again is never taken.
\<close>

theorem extractShop_refines_simple:
  "extractShopFromSessionId sid = extractShop_simple sid
   \<and> (\<forall>p \<in> set (split_on CHR ''_'' sid). CHR ''_'' \<notin> set p)"
proof -
  have free: "\<forall>p \<in> set (split_on CHR ''_'' sid). CHR ''_'' \<notin> set p"
    using split_on_parts_free by blast
  have "2 \<le> length (split_on CHR ''_'' sid) \<Longrightarrow> CHR ''_'' \<notin> set (split_on CHR ''_'' sid ! 1)"
    using free by (simp add: nth_mem del: split_on.simps)
  then have "extractShopFromSessionId sid = extractShop_simple sid"
    by (simp add: extractShopFromSessionId_def extractShop_simple_def Let_def del: split_on.simps)
  with free show ?thesis by blast
qed

theorem extractShop_refines_simple_witness:
  "extractShopFromSessionId ''online_my-shop.myshopify.com_12345'' = Some ''my-shop.myshopify.com''
   \<and> extractShop_simple ''online_my-shop.myshopify.com_12345'' = Some ''my-shop.myshopify.com''
   \<and> split_on CHR ''_'' ''online_my-shop.myshopify.com_12345'' = [''online'', ''my-shop.myshopify.com'', ''12345'']"
  using extractShop_refines_simple [of "''online_my-shop.myshopify.com_12345''"]
  by (simp add: extractShop_simple_def)

text \<open>
  \<^bold>\<open>C8.\<close> The source describes the instance name as shop-specific and unique. It is not:
  two distinct shop domains that differ only in characters outside \<^verbatim>\<open>[A-Za-z0-9-]\<close> are
  given the same name, so the sessions of both are routed to one instance.
\<close>

theorem instance_name_collision:
  "''my.shop.example.com'' \<noteq> ''my-shop.example.com''
   \<and> getShopifySessionInstanceName ''my.shop.example.com''
       = getShopifySessionInstanceName ''my-shop.example.com''
   \<and> getShopifySessionInstanceName ''my.shop.example.com''
       = ''shopify-sessions-my-shop-example-com''
   \<and> getShopifySessionInstanceName ''my-shop.example.com''
       = ''shopify-sessions-my-shop-example-com''"
  by (simp add: getShopifySessionInstanceName_def cleanShop_def name_char_def)

text \<open>
  \<^bold>\<open>C4.\<close> Whatever the query, the parameters and the outcome of \<^verbatim>\<open>sql.exec\<close>, the three
  operations return a result object. When \<^verbatim>\<open>sql.exec\<close> raises with a message, \<^verbatim>\<open>run\<close>
  returns \<^verbatim>\<open>{success: false, error}\<close>, \<^verbatim>\<open>first\<close> returns \<^verbatim>\<open>{result: null, error}\<close> and
  \<^verbatim>\<open>all\<close> returns \<^verbatim>\<open>{results: [], error}\<close>; otherwise \<^verbatim>\<open>run\<close> reports the rows read and
  written, \<^verbatim>\<open>first\<close> returns the first row or null, and \<^verbatim>\<open>all\<close> returns every row.
\<close>

theorem store_never_raises:
  "(\<forall>msg w'. sql_exec inst q ps w = (Inl msg, w') \<longrightarrow>
       run inst q ps w = (\<lparr>run_success = False, run_error = Some msg, run_meta = None\<rparr>, w')
     \<and> first inst q ps w = (\<lparr>first_row = None, first_error = Some msg\<rparr>, w')
     \<and> all inst q ps w = (\<lparr>all_results = [], all_error = Some msg, all_meta = None\<rparr>, w'))
   \<and> (\<forall>c w'. sql_exec inst q ps w = (Inr c, w') \<longrightarrow>
       run inst q ps w = (\<lparr>run_success = True, run_error = None,
                           run_meta = Some (rowsRead c, rowsWritten c)\<rparr>, w')
     \<and> first inst q ps w = (\<lparr>first_row = (case toArray c of [] \<Rightarrow> None | r # _ \<Rightarrow> Some r),
                             first_error = None\<rparr>, w')
     \<and> all inst q ps w = (\<lparr>all_results = toArray c, all_error = None,
                           all_meta = Some (rowsRead c, rowsWritten c)\<rparr>, w'))"
  by (auto simp: run_def first_def all_def Let_def split: list.splits)

theorem store_never_raises_witness:
  "sql_exec ''database-1'' (DeleteAll ''settings'') [] fresh_world
     = (Inl ''no such table: settings'', snd (sql_exec ''database-1'' (DeleteAll ''settings'') [] fresh_world))
   \<and> fst (run ''database-1'' (DeleteAll ''settings'') [] fresh_world)
     = \<lparr>run_success = False, run_error = Some ''no such table: settings'', run_meta = None\<rparr>
   \<and> sql_exec ''database-1'' (CreateTableIfNotExists ''settings'' SETTINGS_SCHEMA) [] fresh_world
     = (Inr \<lparr>toArray = [], rowsRead = 0, rowsWritten = 1\<rparr>,
        snd (sql_exec ''database-1'' (CreateTableIfNotExists ''settings'' SETTINGS_SCHEMA) [] fresh_world))
   \<and> fst (first ''database-1'' (CreateTableIfNotExists ''settings'' SETTINGS_SCHEMA) [] fresh_world)
     = \<lparr>first_row = None, first_error = None\<rparr>"
proof -
  let ?q1 = "DeleteAll ''settings''" and ?q2 = "CreateTableIfNotExists ''settings'' SETTINGS_SCHEMA"
  have a: "sql_exec ''database-1'' ?q1 [] fresh_world
     = (Inl ''no such table: settings'', snd (sql_exec ''database-1'' ?q1 [] fresh_world))"
    by (simp add: sql_exec_def fresh_world_def next_fault_def no_such_table_def)
  have b: "sql_exec ''database-1'' ?q2 [] fresh_world
     = (Inr \<lparr>toArray = [], rowsRead = 0, rowsWritten = 1\<rparr>,
        snd (sql_exec ''database-1'' ?q2 [] fresh_world))"
    by (simp add: sql_exec_def fresh_world_def next_fault_def)
  from store_never_raises[of "''database-1''" ?q1 "[]" fresh_world] a
  have c: "fst (run ''database-1'' ?q1 [] fresh_world)
     = \<lparr>run_success = False, run_error = Some ''no such table: settings'', run_meta = None\<rparr>"
    by (metis fst_conv)
  from store_never_raises[of "''database-1''" ?q2 "[]" fresh_world] b
  have d: "fst (first ''database-1'' ?q2 [] fresh_world) = \<lparr>first_row = None, first_error = None\<rparr>"
    by (metis (no_types, lifting) fst_conv list.simps(4) cursor.select_convs(1))
  from a b c d show ?thesis by blast
qed

lemma sql_exec_calls: "sql_exec inst q ps w = (r, w') \<Longrightarrow> calls w' = calls w @ [(inst, q, ps)]"
  by (auto simp: sql_exec_def Let_def split: option.splits sum.splits prod.splits)

lemma run_calls: "run inst q ps w = (r, w') \<Longrightarrow> calls w' = calls w @ [(inst, q, ps)]"
  by (auto simp: run_def split: prod.splits sum.splits dest: sql_exec_calls)

lemma first_calls: "first inst q ps w = (r, w') \<Longrightarrow> calls w' = calls w @ [(inst, q, ps)]"
  by (auto simp: first_def Let_def split: prod.splits sum.splits dest: sql_exec_calls)

lemma all_calls: "all inst q ps w = (r, w') \<Longrightarrow> calls w' = calls w @ [(inst, q, ps)]"
  by (auto simp: all_def split: prod.splits sum.splits dest: sql_exec_calls)

lemma getAllSettings_calls:
  "getAllSettings (Some inst) t w = (r, w') \<Longrightarrow>
   calls w' = calls w @ [(inst, SelectAllOrderByDesc t ''updated_at'', [])]"
  by (auto simp: getAllSettings_def split: prod.splits if_splits dest: all_calls)

lemma createTable_calls:
  "createTableIfNotExists (Some inst) t sch w = (r, w') \<Longrightarrow>
   calls w' = calls w @ [(inst, CreateTableIfNotExists t sch, [])]"
  by (auto simp: createTableIfNotExists_def split: prod.splits if_splits dest: run_calls)

lemma getAllSettings_message: "getAllSettings stub t w = (Inl msg, w') \<Longrightarrow> msg \<noteq> []"
  by (auto simp: getAllSettings_def not_available_def truthy_str_def
      split: option.splits prod.splits if_splits)

lemma table_missing_raised:
  "getAllSettings stub t w = (Inl msg, w') \<Longrightarrow> table_missing msg = mentions_missing_table msg"
  by (simp add: table_missing_def mentions_missing_table_def getAllSettings_message)

lemma load_ok:
  assumes "binding w"
    and "getAllSettings (Some (cfg_instanceName config)) (cfg_tableName config) w = (Inr rows, w1)"
  shows "loadDatabaseSettings config w =
           (loaded_data config rows (checkbox_checked rows (cfg_settingKey config)), w1)"
  using assms
  by (simp add: loadDatabaseSettings_def getDurableObjectStub_def Let_def loaded_data_def base_data_def)

lemma load_other_fault:
  assumes "binding w"
    and "getAllSettings (Some (cfg_instanceName config)) (cfg_tableName config) w = (Inl msg, w1)"
    and "\<not> mentions_missing_table msg"
  shows "loadDatabaseSettings config w = (failed_data config msg, w1)"
  using assms table_missing_raised[OF assms(2)]
  by (simp add: loadDatabaseSettings_def getDurableObjectStub_def Let_def failed_data_def base_data_def)

lemma load_create_fault:
  assumes "binding w"
    and "getAllSettings (Some (cfg_instanceName config)) (cfg_tableName config) w = (Inl msg, w1)"
    and "mentions_missing_table msg"
    and "createTableIfNotExists (Some (cfg_instanceName config)) (cfg_tableName config)
           SETTINGS_SCHEMA w1 = (Inl m, w2)"
  shows "loadDatabaseSettings config w = (failed_data config m, w2)"
  using assms table_missing_raised[OF assms(2)]
  by (simp add: loadDatabaseSettings_def getDurableObjectStub_def Let_def failed_data_def base_data_def)

lemma load_retry:
  assumes "binding w"
    and "getAllSettings (Some (cfg_instanceName config)) (cfg_tableName config) w = (Inl msg, w1)"
    and "mentions_missing_table msg"
    and "createTableIfNotExists (Some (cfg_instanceName config)) (cfg_tableName config)
           SETTINGS_SCHEMA w1 = (Inr b, w2)"
    and "getAllSettings (Some (cfg_instanceName config)) (cfg_tableName config) w2 = (r, w3)"
  shows "loadDatabaseSettings config w =
           ((case r of Inl m \<Rightarrow> failed_data config m
                     | Inr rows \<Rightarrow> loaded_data config rows False), w3)"
  using assms table_missing_raised[OF assms(2)]
  by (cases r)
     (simp_all add: loadDatabaseSettings_def getDurableObjectStub_def Let_def failed_data_def
        loaded_data_def base_data_def)

lemma load_calls:
  assumes "binding w"
  shows "calls (snd (loadDatabaseSettings config w)) \<in>
           {calls w @ [read_all_call config],
            calls w @ [read_all_call config, create_call config],
            calls w @ [read_all_call config, create_call config, read_all_call config]}"
proof -
  let ?st = "Some (cfg_instanceName config)" and ?t = "cfg_tableName config"
  obtain r1 w1 where g1: "getAllSettings ?st ?t w = (r1, w1)" by (cases "getAllSettings ?st ?t w")
  have c1: "calls w1 = calls w @ [read_all_call config]"
    using getAllSettings_calls[OF g1] by (simp add: read_all_call_def)
  show ?thesis
  proof (cases r1)
    case (Inr rows)
    with g1 c1 load_ok[OF assms, of config rows w1] show ?thesis by simp
  next
    case (Inl msg)
    note g1' = g1[unfolded Inl]
    show ?thesis
    proof (cases "mentions_missing_table msg")
      case False
      with c1 load_other_fault[OF assms g1' False] show ?thesis by simp
    next
      case True
      obtain r2 w2 where g2: "createTableIfNotExists ?st ?t SETTINGS_SCHEMA w1 = (r2, w2)"
        by (cases "createTableIfNotExists ?st ?t SETTINGS_SCHEMA w1")
      have c2: "calls w2 = calls w @ [read_all_call config, create_call config]"
        using createTable_calls[OF g2] c1 by (simp add: create_call_def)
      show ?thesis
      proof (cases r2)
        case (Inl m)
        with c2 load_create_fault[OF assms g1' True g2[unfolded Inl]] show ?thesis by simp
      next
        case (Inr b)
        obtain r3 w3 where g3: "getAllSettings ?st ?t w2 = (r3, w3)"
          by (cases "getAllSettings ?st ?t w2")
        have c3: "calls w3 = calls w @ [read_all_call config, create_call config, read_all_call config]"
          using getAllSettings_calls[OF g3] c2 by (simp add: read_all_call_def)
        with load_retry[OF assms g1' True g2[unfolded Inr] g3] show ?thesis by simp
      qed
    qed
  qed
qed

lemma deleteSession_calls:
  "deleteSession sid w = (r, w') \<Longrightarrow> calls w' = calls w \<or> calls w' = calls w @ [delete_call sid]"
  by (auto simp: deleteSession_def Let_def getShopifySessionsStub_def delete_call_def
        session_instance_def
      split: if_splits option.splits prod.splits dest: run_calls)

lemma sql_exec_fault_storage:
  "sql_exec inst q ps w = (Inl msg, w') \<Longrightarrow> storage w' = storage w"
  by (auto simp: sql_exec_def Let_def split: option.splits sum.splits prod.splits)

lemma sql_exec_ok_storage:
  "sql_exec inst q ps w = (Inr c, w') \<Longrightarrow>
   \<exists>db. exec_query q ps (storage w inst) = Inr (c, db) \<and> storage w' = (storage w)(inst := db)"
  by (auto simp: sql_exec_def Let_def split: option.splits sum.splits prod.splits)

lemma run_storage:
  "run inst q ps w = (r, w') \<Longrightarrow>
   (if run_success r
    then (\<exists>c db. exec_query q ps (storage w inst) = Inr (c, db)
                 \<and> storage w' = (storage w)(inst := db))
    else storage w' = storage w)"
  by (auto simp: run_def split: prod.splits sum.splits
      dest: sql_exec_fault_storage sql_exec_ok_storage)

lemma exec_delete_where:
  "exec_query (DeleteWhere t c) ps db = Inr (cur, db') \<Longrightarrow>
   \<exists>tb. db t = Some tb
      \<and> db' = db(t \<mapsto> tb\<lparr>trows := filter (\<lambda>r. \<not> sql_eq (field c r) (hd ps)) (trows tb)\<rparr>)"
  by (auto simp: Let_def split: option.splits if_splits)

lemma deleteSession_storage:
  assumes "deleteSession sid w = (r, w')"
  shows "if r then after_delete (storage w) sid (storage w') else storage w' = storage w"
proof -
  let ?shop = "extractShopFromSessionId sid"
  show ?thesis
  proof (cases "falsy_shop ?shop \<or> \<not> binding w")
    case True
    with assms show ?thesis
      by (auto simp: deleteSession_def Let_def getShopifySessionsStub_def split: if_splits)
  next
    case False
    obtain res w1 where rn: "run (session_instance sid)
        (DeleteWhere SHOPIFY_SESSION_CONFIG_tableName ''id'') [SqlText sid] w = (res, w1)"
      by (cases "run (session_instance sid)
        (DeleteWhere SHOPIFY_SESSION_CONFIG_tableName ''id'') [SqlText sid] w")
    with assms False have eq: "r = run_success res" "w' = w1"
      by (auto simp: deleteSession_def Let_def getShopifySessionsStub_def session_instance_def)
    show ?thesis
    proof (cases "run_success res")
      case False
      with run_storage[OF rn] eq show ?thesis by simp
    next
      case True
      with run_storage[OF rn] obtain c db where
        e: "exec_query (DeleteWhere SHOPIFY_SESSION_CONFIG_tableName ''id'') [SqlText sid]
              (storage w (session_instance sid)) = Inr (c, db)"
        and s: "storage w1 = (storage w)(session_instance sid := db)"
        by auto
      from exec_delete_where[OF e] s eq True show ?thesis
        by (auto simp: after_delete_def)
    qed
  qed
qed

lemma after_delete_no_add:
  "after_delete (storage w) x (storage w') \<Longrightarrow> held w' inst sid \<Longrightarrow> held w inst sid"
  by (auto simp: after_delete_def held_def list_ex_iff split: if_splits option.splits)

lemma after_delete_removes:
  "after_delete (storage w) sid (storage w') \<Longrightarrow> \<not> held w' (session_instance sid) sid"
  by (auto simp: after_delete_def held_def list_ex_iff)

lemma held_storage: "storage w' = storage w \<Longrightarrow> held w' inst sid = held w inst sid"
  by (simp add: held_def)

lemma deleteSession_no_add:
  "deleteSession x w = (r, w') \<Longrightarrow> held w' inst sid \<Longrightarrow> held w inst sid"
  using deleteSession_storage[of x w r w'] after_delete_no_add[of w x w' inst sid]
    held_storage[of w' w inst sid]
  by (cases r) auto

lemma deleteSession_removes:
  "deleteSession sid w = (True, w') \<Longrightarrow> \<not> held w' (session_instance sid) sid"
  using deleteSession_storage[of sid w True w'] after_delete_removes[of w sid w']
  by simp

lemma deleteSessions_no_add:
  "deleteSessions ids w = (r, w') \<Longrightarrow> held w' inst sid \<Longrightarrow> held w inst sid"
proof (induction ids arbitrary: w)
  case Nil
  then show ?case by simp
next
  case (Cons x xs)
  obtain b w1 where d: "deleteSession x w = (b, w1)" by (cases "deleteSession x w")
  show ?case
  proof (cases b)
    case True
    with Cons.prems d have "deleteSessions xs w1 = (r, w')" by simp
    from Cons.IH[OF this Cons.prems(2)] deleteSession_no_add[OF d] show ?thesis by blast
  next
    case False
    with Cons.prems d have "w' = w1" by simp
    with deleteSession_no_add[OF d] Cons.prems(2) show ?thesis by blast
  qed
qed

lemma deleteSessions_removed:
  "deleteSessions ids w = (True, w') \<Longrightarrow> a \<in> set ids \<Longrightarrow> \<not> held w' (session_instance a) a"
proof (induction ids arbitrary: w)
  case Nil
  then show ?case by simp
next
  case (Cons x xs)
  obtain b w1 where d: "deleteSession x w = (b, w1)" by (cases "deleteSession x w")
  from Cons.prems(1) d have b: "b" by (cases b) auto
  with Cons.prems(1) d have rest: "deleteSessions xs w1 = (True, w')" by simp
  show ?case
  proof (cases "a \<in> set xs")
    case True
    from Cons.IH[OF rest True] show ?thesis .
  next
    case False
    with Cons.prems(2) have "a = x" by simp
    with d b have "deleteSession a w = (True, w1)" by simp
    from deleteSession_removes[OF this] have "\<not> held w1 (session_instance a) a" .
    with deleteSessions_no_add[OF rest] show ?thesis by blast
  qed
qed

lemma deleteSessions_append:
  "deleteSessions pre w = (True, w1) \<Longrightarrow> deleteSessions (pre @ rest) w = deleteSessions rest w1"
proof (induction pre arbitrary: w)
  case Nil
  then show ?case by simp
next
  case (Cons x xs)
  obtain b w0 where d: "deleteSession x w = (b, w0)" by (cases "deleteSession x w")
  from Cons.prems d have b: "b" by (cases b) auto
  with Cons.prems d have "deleteSessions xs w0 = (True, w1)" by simp
  from Cons.IH[OF this] d b show ?case by simp
qed

lemma deleteSessions_calls:
  "deleteSessions ids w = (r, w') \<Longrightarrow>
   \<exists>cs. calls w' = calls w @ cs \<and> set cs \<subseteq> delete_call ` set ids"
proof (induction ids arbitrary: w)
  case Nil
  then show ?case by simp
next
  case (Cons x xs)
  obtain b w1 where d: "deleteSession x w = (b, w1)" by (cases "deleteSession x w")
  from deleteSession_calls[OF d]
  obtain c0 where c0: "calls w1 = calls w @ c0" "set c0 \<subseteq> {delete_call x}"
    by (cases "calls w1 = calls w") auto
  show ?case
  proof (cases b)
    case False
    with Cons.prems d have "w' = w1" by simp
    with c0 show ?thesis by auto
  next
    case True
    with Cons.prems d have "deleteSessions xs w1 = (r, w')" by simp
    from Cons.IH[OF this] obtain cs where "calls w' = calls w1 @ cs" "set cs \<subseteq> delete_call ` set xs"
      by blast
    with c0 have "calls w' = calls w @ (c0 @ cs) \<and> set (c0 @ cs) \<subseteq> delete_call ` set (x # xs)"
      by auto
    then show ?thesis by blast
  qed
qed

lemma deleteSessions_true_iff:
  "fst (deleteSessions ids w) =
     (\<forall>i<length ids. fst (deleteSession (ids ! i) (snd (deleteSessions (take i ids) w))))"
proof (induction ids arbitrary: w)
  case Nil
  then show ?case by simp
next
  case (Cons x xs)
  obtain b w1 where d: "deleteSession x w = (b, w1)" by (cases "deleteSession x w")
  show ?case
  proof (cases b)
    case False
    have "\<not> fst (deleteSession ((x # xs) ! 0) (snd (deleteSessions (take 0 (x # xs)) w)))"
      using d False by simp
    then have "\<not> (\<forall>i<length (x # xs). fst (deleteSession ((x # xs) ! i) (snd (deleteSessions (take i (x # xs)) w))))"
      by (metis length_greater_0_conv list.distinct(1))
    with d False show ?thesis by simp
  next
    case True
    have step: "\<And>i. snd (deleteSessions (take (Suc i) (x # xs)) w) = snd (deleteSessions (take i xs) w1)"
      using d True by simp
    have "(\<forall>i<length (x # xs). fst (deleteSession ((x # xs) ! i) (snd (deleteSessions (take i (x # xs)) w))))
        = (\<forall>i<length xs. fst (deleteSession (xs ! i) (snd (deleteSessions (take i xs) w1))))"
      (is "?L = ?R")
    proof
      assume l: ?L
      show ?R
      proof (intro allI impI)
        fix i assume "i < length xs"
        then have "Suc i < length (x # xs)" by simp
        from l[rule_format, OF this] show "fst (deleteSession (xs ! i) (snd (deleteSessions (take i xs) w1)))"
          using d True by simp
      qed
    next
      assume r: ?R
      show ?L
      proof (intro allI impI)
        fix i assume i: "i < length (x # xs)"
        show "fst (deleteSession ((x # xs) ! i) (snd (deleteSessions (take i (x # xs)) w)))"
        proof (cases i)
          case 0
          with d True show ?thesis by simp
        next
          case (Suc j)
          with i have "j < length xs" by simp
          from r[rule_format, OF this] Suc d True show ?thesis by simp
        qed
      qed
    qed
    with Cons.IH[of w1] d True show ?thesis by simp
  qed
qed

text \<open>
  \<^bold>\<open>C3.\<close> With the binding present, \<^verbatim>\<open>loadDatabaseSettings\<close> reads all rows once. If the
  read succeeds, the rows are returned with no error. If \<^verbatim>\<open>getAllSettings\<close> raises and the
  message names neither pattern, the message is the returned error and nothing else is
  called. If the message names a pattern, the table is created and the rows are read once
  more: the rows of that second read are returned with no error, and a message raised by
  the creation or by the second read is the returned error. The calls made are one read,
  or a read and a creation, or a read, a creation and a read: never a second retry.
\<close>

theorem loadDatabaseSettings_single_retry:
  assumes "binding w"
  shows
   "(\<forall>rows w1.
       getAllSettings (Some (cfg_instanceName config)) (cfg_tableName config) w = (Inr rows, w1) \<longrightarrow>
       loadDatabaseSettings config w =
         (loaded_data config rows (checkbox_checked rows (cfg_settingKey config)), w1))
    \<and> (\<forall>msg w1.
       getAllSettings (Some (cfg_instanceName config)) (cfg_tableName config) w = (Inl msg, w1)
       \<and> \<not> mentions_missing_table msg \<longrightarrow>
       loadDatabaseSettings config w = (failed_data config msg, w1))
    \<and> (\<forall>msg w1 m w2.
       getAllSettings (Some (cfg_instanceName config)) (cfg_tableName config) w = (Inl msg, w1)
       \<and> mentions_missing_table msg
       \<and> createTableIfNotExists (Some (cfg_instanceName config)) (cfg_tableName config)
            SETTINGS_SCHEMA w1 = (Inl m, w2) \<longrightarrow>
       loadDatabaseSettings config w = (failed_data config m, w2))
    \<and> (\<forall>msg w1 b w2 m w3.
       getAllSettings (Some (cfg_instanceName config)) (cfg_tableName config) w = (Inl msg, w1)
       \<and> mentions_missing_table msg
       \<and> createTableIfNotExists (Some (cfg_instanceName config)) (cfg_tableName config)
            SETTINGS_SCHEMA w1 = (Inr b, w2)
       \<and> getAllSettings (Some (cfg_instanceName config)) (cfg_tableName config) w2 = (Inl m, w3) \<longrightarrow>
       loadDatabaseSettings config w = (failed_data config m, w3))
    \<and> (\<forall>msg w1 b w2 rows w3.
       getAllSettings (Some (cfg_instanceName config)) (cfg_tableName config) w = (Inl msg, w1)
       \<and> mentions_missing_table msg
       \<and> createTableIfNotExists (Some (cfg_instanceName config)) (cfg_tableName config)
            SETTINGS_SCHEMA w1 = (Inr b, w2)
       \<and> getAllSettings (Some (cfg_instanceName config)) (cfg_tableName config) w2 = (Inr rows, w3) \<longrightarrow>
       loadDatabaseSettings config w = (loaded_data config rows False, w3))
    \<and> calls (snd (loadDatabaseSettings config w)) \<in>
         {calls w @ [read_all_call config],
          calls w @ [read_all_call config, create_call config],
          calls w @ [read_all_call config, create_call config, read_all_call config]}"
proof (intro conjI allI impI)
  fix rows w1
  assume "getAllSettings (Some (cfg_instanceName config)) (cfg_tableName config) w = (Inr rows, w1)"
  from load_ok[OF assms this]
  show "loadDatabaseSettings config w =
         (loaded_data config rows (checkbox_checked rows (cfg_settingKey config)), w1)" .
next
  fix msg w1
  assume "getAllSettings (Some (cfg_instanceName config)) (cfg_tableName config) w = (Inl msg, w1)
       \<and> \<not> mentions_missing_table msg"
  then show "loadDatabaseSettings config w = (failed_data config msg, w1)"
    using load_other_fault[OF assms] by blast
next
  fix msg w1 m w2
  assume "getAllSettings (Some (cfg_instanceName config)) (cfg_tableName config) w = (Inl msg, w1)
       \<and> mentions_missing_table msg
       \<and> createTableIfNotExists (Some (cfg_instanceName config)) (cfg_tableName config)
            SETTINGS_SCHEMA w1 = (Inl m, w2)"
  then show "loadDatabaseSettings config w = (failed_data config m, w2)"
    using load_create_fault[OF assms] by blast
next
  fix msg w1 b w2 m w3
  assume "getAllSettings (Some (cfg_instanceName config)) (cfg_tableName config) w = (Inl msg, w1)
       \<and> mentions_missing_table msg
       \<and> createTableIfNotExists (Some (cfg_instanceName config)) (cfg_tableName config)
            SETTINGS_SCHEMA w1 = (Inr b, w2)
       \<and> getAllSettings (Some (cfg_instanceName config)) (cfg_tableName config) w2 = (Inl m, w3)"
  then show "loadDatabaseSettings config w = (failed_data config m, w3)"
    using load_retry[OF assms, of config msg w1 b w2 "Inl m" w3] by simp
next
  fix msg w1 b w2 rows w3
  assume "getAllSettings (Some (cfg_instanceName config)) (cfg_tableName config) w = (Inl msg, w1)
       \<and> mentions_missing_table msg
       \<and> createTableIfNotExists (Some (cfg_instanceName config)) (cfg_tableName config)
            SETTINGS_SCHEMA w1 = (Inr b, w2)
       \<and> getAllSettings (Some (cfg_instanceName config)) (cfg_tableName config) w2 = (Inr rows, w3)"
  then show "loadDatabaseSettings config w = (loaded_data config rows False, w3)"
    using load_retry[OF assms, of config msg w1 b w2 "Inr rows" w3] by simp
next
  from load_calls[OF assms]
  show "calls (snd (loadDatabaseSettings config w)) \<in>
         {calls w @ [read_all_call config],
          calls w @ [read_all_call config, create_call config],
          calls w @ [read_all_call config, create_call config, read_all_call config]}" .
qed

theorem loadDatabaseSettings_single_retry_witness:
  "binding fresh_world \<and> binding settings_world
   \<and> loadDatabaseSettings db1 settings_world
       = (loaded_data db1 [setting_row ''test_checkbox_db1'' ''false'' 1650000000000,
                           setting_row ''theme'' ''dark'' 1600000000000] False,
          settings_world\<lparr>calls := [read_all_call db1]\<rparr>)
   \<and> loadDatabaseSettings db1 (settings_world\<lparr>faults := [Some ''disk I/O error'']\<rparr>)
       = (failed_data db1 ''disk I/O error'', settings_world\<lparr>calls := [read_all_call db1]\<rparr>)
   \<and> fst (loadDatabaseSettings db1 (fresh_world\<lparr>faults := [None, Some ''database is locked'']\<rparr>))
       = failed_data db1 ''database is locked''
   \<and> fst (loadDatabaseSettings db1 (fresh_world\<lparr>faults := [None, None, Some ''disk I/O error'']\<rparr>))
       = failed_data db1 ''disk I/O error''
   \<and> fst (loadDatabaseSettings db1 fresh_world) = loaded_data db1 [] False
   \<and> calls (snd (loadDatabaseSettings db1 fresh_world))
       = [read_all_call db1, create_call db1, read_all_call db1]"
proof -
  let ?st = "Some (cfg_instanceName db1)" and ?t = "cfg_tableName db1"
  let ?msg = "''no such table: settings''"
  let ?wa = settings_world
  let ?wb = "settings_world\<lparr>faults := [Some ''disk I/O error'']\<rparr>"
  let ?wc = "fresh_world\<lparr>faults := [None, Some ''database is locked'']\<rparr>"
  let ?wd = "fresh_world\<lparr>faults := [None, None, Some ''disk I/O error'']\<rparr>"
  let ?we = fresh_world
  note ev = getAllSettings_def createTableIfNotExists_def db1_def fresh_world_def
    settings_world_def world_eval SETTINGS_SCHEMA_def setting_row_def field_def
    read_all_call_def
  have b: "binding ?wa" "binding ?wb" "binding ?wc" "binding ?wd" "binding ?we"
    by (simp_all add: fresh_world_def settings_world_def)
  have m: "mentions_missing_table ?msg" by (simp add: mentions_missing_table_def)
  have n: "\<not> mentions_missing_table ''disk I/O error''"
    by (simp add: mentions_missing_table_def)
  have a1: "getAllSettings ?st ?t ?wa
     = (Inr [setting_row ''test_checkbox_db1'' ''false'' 1650000000000,
             setting_row ''theme'' ''dark'' 1600000000000],
        settings_world\<lparr>calls := [read_all_call db1]\<rparr>)"
    by (simp add: ev)
  have ck: "checkbox_checked [setting_row ''test_checkbox_db1'' ''false'' 1650000000000,
             setting_row ''theme'' ''dark'' 1600000000000] (cfg_settingKey db1) = False"
    by (simp add: checkbox_checked_def db1_def setting_row_def field_def)
  note thm_a = loadDatabaseSettings_single_retry[OF b(1), of db1]
  from thm_a[THEN conjunct1, rule_format, OF a1] ck
  have ra: "loadDatabaseSettings db1 ?wa
       = (loaded_data db1 [setting_row ''test_checkbox_db1'' ''false'' 1650000000000,
                           setting_row ''theme'' ''dark'' 1600000000000] False,
          settings_world\<lparr>calls := [read_all_call db1]\<rparr>)"
    by simp
  have b1: "getAllSettings ?st ?t ?wb
     = (Inl ''disk I/O error'', settings_world\<lparr>calls := [read_all_call db1]\<rparr>)"
    by (simp add: ev)
  note thm_b = loadDatabaseSettings_single_retry[OF b(2), of db1]
  from thm_b[THEN conjunct2, THEN conjunct1, rule_format, OF conjI[OF b1 n]]
  have rb: "loadDatabaseSettings db1 ?wb
       = (failed_data db1 ''disk I/O error'', settings_world\<lparr>calls := [read_all_call db1]\<rparr>)" .
  have c1: "getAllSettings ?st ?t ?wc = (Inl ?msg, snd (getAllSettings ?st ?t ?wc))"
    by (simp add: ev)
  have c2: "createTableIfNotExists ?st ?t SETTINGS_SCHEMA (snd (getAllSettings ?st ?t ?wc))
     = (Inl ''database is locked'',
        snd (createTableIfNotExists ?st ?t SETTINGS_SCHEMA (snd (getAllSettings ?st ?t ?wc))))"
    by (simp add: ev)
  note thm_c = loadDatabaseSettings_single_retry[OF b(3), of db1]
  from thm_c[THEN conjunct2, THEN conjunct2, THEN conjunct1, rule_format,
      OF conjI[OF c1 conjI[OF m c2]]]
  have rc: "fst (loadDatabaseSettings db1 ?wc) = failed_data db1 ''database is locked''"
    by simp
  have d1: "getAllSettings ?st ?t ?wd = (Inl ?msg, snd (getAllSettings ?st ?t ?wd))"
    by (simp add: ev)
  have d2: "createTableIfNotExists ?st ?t SETTINGS_SCHEMA (snd (getAllSettings ?st ?t ?wd))
     = (Inr True,
        snd (createTableIfNotExists ?st ?t SETTINGS_SCHEMA (snd (getAllSettings ?st ?t ?wd))))"
    by (simp add: ev)
  have d3: "getAllSettings ?st ?t
       (snd (createTableIfNotExists ?st ?t SETTINGS_SCHEMA (snd (getAllSettings ?st ?t ?wd))))
     = (Inl ''disk I/O error'', snd (getAllSettings ?st ?t
       (snd (createTableIfNotExists ?st ?t SETTINGS_SCHEMA (snd (getAllSettings ?st ?t ?wd))))))"
    by (simp add: ev)
  note thm_d = loadDatabaseSettings_single_retry[OF b(4), of db1]
  from thm_d[THEN conjunct2, THEN conjunct2, THEN conjunct2, THEN conjunct1, rule_format,
      OF conjI[OF d1 conjI[OF m conjI[OF d2 d3]]]]
  have rd: "fst (loadDatabaseSettings db1 ?wd) = failed_data db1 ''disk I/O error''"
    by simp
  have e1: "getAllSettings ?st ?t ?we = (Inl ?msg, snd (getAllSettings ?st ?t ?we))"
    by (simp add: ev)
  have e2: "createTableIfNotExists ?st ?t SETTINGS_SCHEMA (snd (getAllSettings ?st ?t ?we))
     = (Inr True,
        snd (createTableIfNotExists ?st ?t SETTINGS_SCHEMA (snd (getAllSettings ?st ?t ?we))))"
    by (simp add: ev)
  have e3: "getAllSettings ?st ?t
       (snd (createTableIfNotExists ?st ?t SETTINGS_SCHEMA (snd (getAllSettings ?st ?t ?we))))
     = (Inr [], snd (getAllSettings ?st ?t
       (snd (createTableIfNotExists ?st ?t SETTINGS_SCHEMA (snd (getAllSettings ?st ?t ?we))))))"
    by (simp add: ev)
  have e4: "calls (snd (getAllSettings ?st ?t
       (snd (createTableIfNotExists ?st ?t SETTINGS_SCHEMA (snd (getAllSettings ?st ?t ?we))))))
     = [read_all_call db1, create_call db1, read_all_call db1]"
    by (simp add: ev create_call_def)
  note thm_e = loadDatabaseSettings_single_retry[OF b(5), of db1]
  from thm_e[THEN conjunct2, THEN conjunct2, THEN conjunct2, THEN conjunct2, THEN conjunct1,
      rule_format, OF conjI[OF e1 conjI[OF m conjI[OF e2 e3]]]]
  have re: "loadDatabaseSettings db1 ?we = (loaded_data db1 [] False, snd (getAllSettings ?st ?t
       (snd (createTableIfNotExists ?st ?t SETTINGS_SCHEMA (snd (getAllSettings ?st ?t ?we))))))" .
  from re e4 have rf: "fst (loadDatabaseSettings db1 ?we) = loaded_data db1 [] False"
    and rg: "calls (snd (loadDatabaseSettings db1 ?we))
       = [read_all_call db1, create_call db1, read_all_call db1]" by simp_all
  from b(5) b(1) ra rb rc rd rf rg show ?thesis by (intro conjI)
qed

text \<open>
  \<^bold>\<open>C5.\<close> \<^verbatim>\<open>deleteSessions\<close> returns true exactly when the deletion of every id, each in
  the world its predecessors left, succeeds. When the ids \<open>pre\<close> are deleted and the
  deletion of \<open>b\<close> then fails, the result is false and the world is the one the failed
  deletion of \<open>b\<close> left, whatever ids follow: no id of \<open>pre\<close> is held any more by its
  instance, and every call made is the deletion of an id of \<open>pre\<close> or of \<open>b\<close>.
\<close>

theorem deleteSessions_stops_at_first_failure:
  "fst (deleteSessions ids w) =
     (\<forall>i<length ids. fst (deleteSession (ids ! i) (snd (deleteSessions (take i ids) w))))
   \<and> (\<forall>pre b post w1 w2.
        deleteSessions pre w = (True, w1) \<and> deleteSession b w1 = (False, w2) \<longrightarrow>
          deleteSessions (pre @ b # post) w = (False, w2)
        \<and> (\<forall>a \<in> set pre. \<not> held w2 (session_instance a) a)
        \<and> (\<exists>cs. calls w2 = calls w @ cs \<and> set cs \<subseteq> delete_call ` set (pre @ [b])))"
proof (intro conjI allI impI)
  show "fst (deleteSessions ids w) =
     (\<forall>i<length ids. fst (deleteSession (ids ! i) (snd (deleteSessions (take i ids) w))))"
    by (rule deleteSessions_true_iff)
next
  fix pre b post w1 w2
  assume a: "deleteSessions pre w = (True, w1) \<and> deleteSession b w1 = (False, w2)"
  then have p: "deleteSessions pre w = (True, w1)" and f: "deleteSession b w1 = (False, w2)"
    by simp_all
  from deleteSessions_append[OF p, of "b # post"] f
  show "deleteSessions (pre @ b # post) w = (False, w2)" by simp
  show "\<forall>a \<in> set pre. \<not> held w2 (session_instance a) a"
    using deleteSessions_removed[OF p] deleteSession_no_add[OF f] by blast
  from deleteSessions_append[OF p, of "[b]"] f
  have "deleteSessions (pre @ [b]) w = (False, w2)" by simp
  from deleteSessions_calls[OF this]
  show "\<exists>cs. calls w2 = calls w @ cs \<and> set cs \<subseteq> delete_call ` set (pre @ [b])" .
qed

theorem deleteSessions_stops_at_first_failure_witness:
  "deleteSessions [''offline_a.myshopify.com''] three_sessions_world
     = (True, snd (deleteSessions [''offline_a.myshopify.com''] three_sessions_world))
   \<and> deleteSession ''online_a.myshopify.com_1''
        (snd (deleteSessions [''offline_a.myshopify.com''] three_sessions_world))
     = (False, snd (deleteSession ''online_a.myshopify.com_1''
          (snd (deleteSessions [''offline_a.myshopify.com''] three_sessions_world))))
   \<and> fst (deleteSessions [''offline_a.myshopify.com'', ''online_a.myshopify.com_1'',
             ''online_a.myshopify.com_2''] three_sessions_world) = False
   \<and> held three_sessions_world shop_a_instance ''offline_a.myshopify.com''
   \<and> \<not> held (snd (deleteSessions [''offline_a.myshopify.com'', ''online_a.myshopify.com_1'',
             ''online_a.myshopify.com_2''] three_sessions_world))
          shop_a_instance ''offline_a.myshopify.com''
   \<and> held (snd (deleteSessions [''offline_a.myshopify.com'', ''online_a.myshopify.com_1'',
             ''online_a.myshopify.com_2''] three_sessions_world))
          shop_a_instance ''online_a.myshopify.com_2''"
proof -
  let ?a = "''offline_a.myshopify.com''" and ?b = "''online_a.myshopify.com_1''"
    and ?c = "''online_a.myshopify.com_2''" and ?w = three_sessions_world
  let ?w1 = "snd (deleteSessions [?a] ?w)"
  let ?w2 = "snd (deleteSession ?b ?w1)"
  have inst: "session_instance ?a = shop_a_instance"
    by (simp add: session_instance_def shop_a_instance_def session_eval)
  have p: "deleteSessions [?a] ?w = (True, ?w1)"
    by (simp add: three_sessions_world_def shop_a_instance_def offline_session_def
          online_session_def text_json_def session_eval world_eval)
  have f: "deleteSession ?b ?w1 = (False, ?w2)"
    by (simp add: three_sessions_world_def shop_a_instance_def offline_session_def
          online_session_def text_json_def session_eval world_eval)
  from deleteSessions_stops_at_first_failure[of "[?a, ?b, ?c]" ?w] p f
  have r: "deleteSessions ([?a] @ ?b # [?c]) ?w = (False, ?w2)"
    and g: "\<forall>a \<in> set [?a]. \<not> held ?w2 (session_instance a) a"
    by blast+
  from r have r1: "fst (deleteSessions [?a, ?b, ?c] ?w) = False"
    and r2: "snd (deleteSessions [?a, ?b, ?c] ?w) = ?w2" by simp_all
  from g inst have g1: "\<not> held ?w2 shop_a_instance ?a" by simp
  have h0: "held ?w shop_a_instance ?a"
    by (simp add: held_def three_sessions_world_def shop_a_instance_def offline_session_def
          online_session_def text_json_def session_eval)
  have h2: "held ?w2 shop_a_instance ?c"
    by (simp add: held_def three_sessions_world_def shop_a_instance_def offline_session_def
          online_session_def text_json_def session_eval world_eval)
  from p f r1 r2 g1 h0 h2 show ?thesis by simp
qed

lemma deleteSessions_unbound:
  "\<not> binding w \<Longrightarrow> ids \<noteq> [] \<Longrightarrow> deleteSessions ids w = (False, w)"
  by (cases ids) (auto simp: deleteSession_def Let_def getShopifySessionsStub_def)

text \<open>
  With the binding absent, \<^verbatim>\<open>deleteSessions\<close> of the empty list returns true: its loop
  makes no call.
\<close>

theorem deleteSessions_empty_unbound:
  "\<not> binding unbound_world \<and> deleteSessions [] unbound_world = (True, unbound_world)"
  by (simp add: unbound_world_def)

text \<open>
  \<^bold>\<open>C7\<close>, as the code has it. With the binding absent both routers return null, and every
  operation returns its unavailable shape and leaves the world as it was:
  \<^verbatim>\<open>storeSession\<close> and \<^verbatim>\<open>deleteSession\<close> return false, \<^verbatim>\<open>deleteSessions\<close> returns false for
  every list that is not empty, \<^verbatim>\<open>loadSession\<close> returns undefined, \<^verbatim>\<open>findSessionsByShop\<close>
  returns no session, \<^verbatim>\<open>loadDatabaseSettings\<close> returns a record with \<^verbatim>\<open>dbAvailable\<close> false
  and an error text, and \<^verbatim>\<open>updateDatabaseSetting\<close> and \<^verbatim>\<open>clearDatabaseSettings\<close> return
  \<^verbatim>\<open>{success: false, error}\<close>.
\<close>

theorem binding_absent_shapes:
  assumes "\<not> binding w"
  shows "getDurableObjectStub w instanceName = None
    \<and> getShopifySessionsStub w shop = None
    \<and> storeSession J session w = (False, w)
    \<and> deleteSession sid w = (False, w)
    \<and> (ids \<noteq> [] \<longrightarrow> deleteSessions ids w = (False, w))
    \<and> loadSession J sid w = (None, w)
    \<and> findSessionsByShop J shop w = ([], w)
    \<and> loadDatabaseSettings config w = (failed_data config (instance_unavailable config), w)
    \<and> \<not> dbAvailable (failed_data config (instance_unavailable config))
    \<and> (\<exists>e. updateDatabaseSetting dbKey checked w = (UpdateFailure e, w))
    \<and> (\<exists>e. clearDatabaseSettings dbKey w = (ClearFailure e, w))"
proof -
  have a: "getDurableObjectStub w instanceName = None" "getShopifySessionsStub w shop = None"
    using assms by (simp_all add: getDurableObjectStub_def getShopifySessionsStub_def)
  have b: "storeSession J session w = (False, w)"
    using assms by (simp add: storeSession_def getShopifySessionsStub_def)
  have c: "deleteSession sid w = (False, w)"
    using assms by (simp add: deleteSession_def Let_def getShopifySessionsStub_def)
  have d: "ids \<noteq> [] \<longrightarrow> deleteSessions ids w = (False, w)"
    using assms deleteSessions_unbound by blast
  have e: "loadSession J sid w = (None, w)"
    using assms by (simp add: loadSession_def Let_def getShopifySessionsStub_def)
  have f: "findSessionsByShop J shop w = ([], w)"
    using assms by (simp add: findSessionsByShop_def getShopifySessionsStub_def)
  have g: "loadDatabaseSettings config w = (failed_data config (instance_unavailable config), w)"
    using assms
    by (simp add: loadDatabaseSettings_def getDurableObjectStub_def Let_def failed_data_def
          base_data_def instance_unavailable_def)
  have h: "\<not> dbAvailable (failed_data config (instance_unavailable config))"
    by (simp add: failed_data_def base_data_def)
  have i: "\<exists>e. updateDatabaseSetting dbKey checked w = (UpdateFailure e, w)"
    using assms
    by (cases "find_config dbKey")
       (simp_all add: updateDatabaseSetting_def getDurableObjectStub_def Let_def)
  have j: "\<exists>e. clearDatabaseSettings dbKey w = (ClearFailure e, w)"
    using assms
    by (cases "find_config dbKey")
       (simp_all add: clearDatabaseSettings_def getDurableObjectStub_def Let_def)
  from a b c d e f g h i j show ?thesis by blast
qed

theorem binding_absent_shapes_witness:
  "\<not> binding unbound_world
   \<and> storeSession text_json offline_session unbound_world = (False, unbound_world)
   \<and> deleteSessions [''offline_a.myshopify.com''] unbound_world = (False, unbound_world)
   \<and> loadSession text_json ''offline_a.myshopify.com'' unbound_world = (None, unbound_world)
   \<and> d_error (fst (loadDatabaseSettings db1 unbound_world))
       = Some ''Durable Object instance database-1 is not available''
   \<and> updateDatabaseSetting ''DB1'' True unbound_world
       = (UpdateFailure ''Durable Object instance database-1 is not available'', unbound_world)"
proof -
  have h: "\<not> binding unbound_world" by (simp add: unbound_world_def)
  have n: "[''offline_a.myshopify.com''] \<noteq> []" by simp
  have u: "updateDatabaseSetting ''DB1'' True unbound_world
       = (UpdateFailure ''Durable Object instance database-1 is not available'', unbound_world)"
    by (simp add: updateDatabaseSetting_def find_config_def DATABASE_CONFIG_def
          getDurableObjectStub_def unbound_world_def instance_unavailable_def)
  from binding_absent_shapes[OF h, of _ _ text_json offline_session
      "''offline_a.myshopify.com''" "[''offline_a.myshopify.com'']" db1] n u h
  show ?thesis
    by (simp add: failed_data_def base_data_def instance_unavailable_def db1_def)
qed

lemma session_of_row_expires:
  "session_of_row J r = Some s \<Longrightarrow>
   js_expires s = (if truthy (field ''expires'' r) then Some (field ''expires'' r) else None)"
  by (auto simp: session_of_row_def Let_def split: if_splits option.splits)

lemma session_of_row_info:
  "\<not> truthy (field ''onlineAccessInfo'' r) \<Longrightarrow>
   \<exists>s. session_of_row J r = Some s \<and> js_onlineAccessInfo s = None"
  by (auto simp: session_of_row_def Let_def)

lemma session_of_row_unset:
  "\<not> truthy (field ''expires'' r) \<Longrightarrow> \<not> truthy (field ''onlineAccessInfo'' r) \<Longrightarrow>
   session_of_row J r = Some (raw_session r)"
  by (simp add: session_of_row_def Let_def raw_session_def)

lemma loadSession_decodes:
  assumes "loadSession J sid w = (Some s, w')"
  shows "\<exists>r. first_row (fst (first (session_instance sid) select_by_id [SqlText sid] w)) = Some r
           \<and> session_of_row J r = Some s"
  using assms
  by (auto simp: loadSession_def Let_def getShopifySessionsStub_def session_instance_def
        select_by_id_def
      split: if_splits option.splits prod.splits)

lemma map_rows_Some:
  "map_rows f rows = Some xs \<Longrightarrow>
   length xs = length rows \<and> (\<forall>i<length rows. f (rows ! i) = Some (xs ! i))"
proof (induction rows arbitrary: xs)
  case Nil
  then show ?case by simp
next
  case (Cons r rs)
  from Cons.prems obtain y ys where y: "f r = Some y" "map_rows f rs = Some ys" "xs = y # ys"
    by (auto split: option.splits)
  from Cons.IH[OF y(2)] y show ?case
    by (auto simp: nth_Cons split: nat.splits)
qed

lemma findSessionsByShop_decodes:
  assumes "findSessionsByShop J shop w = (ss, w')"
  shows "ss = [] \<or>
         (let rows = all_results (fst (all (getShopifySessionInstanceName shop) select_by_shop
                                         [SqlText shop] w))
          in length ss = length rows
             \<and> (\<forall>i<length rows. session_of_row J (rows ! i) = Some (ss ! i)))"
  using assms
  by (auto simp: findSessionsByShop_def Let_def getShopifySessionsStub_def select_by_shop_def
      split: if_splits option.splits prod.splits dest: map_rows_Some)

text \<open>
  \<^bold>\<open>C10.\<close> The integer 0, NULL and the empty text are falsy. A row whose \<^verbatim>\<open>expires\<close> and
  \<^verbatim>\<open>onlineAccessInfo\<close> are both falsy is decoded with both fields left unset. Every session
  \<^verbatim>\<open>loadSession\<close> returns is decoded from the row \<^verbatim>\<open>first\<close> returned, and every session
  \<^verbatim>\<open>findSessionsByShop\<close> returns from the row of \<^verbatim>\<open>all\<close> at the same position: where
  \<^verbatim>\<open>expires\<close> of the row is falsy (as the epoch instant 0 is) the session has no
  \<^verbatim>\<open>expires\<close>, and where \<^verbatim>\<open>onlineAccessInfo\<close> of the row is falsy the session has no
  \<^verbatim>\<open>onlineAccessInfo\<close>.
\<close>

theorem falsy_columns_left_unset:
  "\<not> truthy (SqlInt 0) \<and> \<not> truthy SqlNull \<and> \<not> truthy (SqlText [])
   \<and> (\<not> truthy (field ''expires'' r) \<and> \<not> truthy (field ''onlineAccessInfo'' r) \<longrightarrow>
        session_of_row J r = Some (raw_session r))
   \<and> (\<forall>s w'. loadSession J sid w = (Some s, w') \<longrightarrow>
        (\<exists>r. first_row (fst (first (session_instance sid) select_by_id [SqlText sid] w)) = Some r
           \<and> session_of_row J r = Some s
           \<and> (\<not> truthy (field ''expires'' r) \<longrightarrow> js_expires s = None)
           \<and> (\<not> truthy (field ''onlineAccessInfo'' r) \<longrightarrow> js_onlineAccessInfo s = None)))
   \<and> (\<forall>ss w'. findSessionsByShop J shop w = (ss, w') \<and> ss \<noteq> [] \<longrightarrow>
        (let rows = all_results (fst (all (getShopifySessionInstanceName shop) select_by_shop
                                        [SqlText shop] w))
         in length ss = length rows
            \<and> (\<forall>i<length rows.
                  session_of_row J (rows ! i) = Some (ss ! i)
                  \<and> (\<not> truthy (field ''expires'' (rows ! i)) \<longrightarrow> js_expires (ss ! i) = None)
                  \<and> (\<not> truthy (field ''onlineAccessInfo'' (rows ! i)) \<longrightarrow>
                       js_onlineAccessInfo (ss ! i) = None))))"
proof -
  have t: "\<not> truthy (SqlInt 0) \<and> \<not> truthy SqlNull \<and> \<not> truthy (SqlText [])"
    by (simp add: truthy_def)
  have u: "\<not> truthy (field ''expires'' r) \<and> \<not> truthy (field ''onlineAccessInfo'' r) \<longrightarrow>
        session_of_row J r = Some (raw_session r)"
    using session_of_row_unset by blast
  have unset: "\<And>r s. session_of_row J r = Some s \<Longrightarrow>
       (\<not> truthy (field ''expires'' r) \<longrightarrow> js_expires s = None)
     \<and> (\<not> truthy (field ''onlineAccessInfo'' r) \<longrightarrow> js_onlineAccessInfo s = None)"
  proof -
    fix r s
    assume a: "session_of_row J r = Some s"
    from session_of_row_expires[OF a]
    have e: "\<not> truthy (field ''expires'' r) \<longrightarrow> js_expires s = None" by simp
    from session_of_row_info[of r J] a
    have i: "\<not> truthy (field ''onlineAccessInfo'' r) \<longrightarrow> js_onlineAccessInfo s = None" by auto
    from e i show "(\<not> truthy (field ''expires'' r) \<longrightarrow> js_expires s = None)
     \<and> (\<not> truthy (field ''onlineAccessInfo'' r) \<longrightarrow> js_onlineAccessInfo s = None)" by simp
  qed
  have l: "\<forall>s w'. loadSession J sid w = (Some s, w') \<longrightarrow>
        (\<exists>r. first_row (fst (first (session_instance sid) select_by_id [SqlText sid] w)) = Some r
           \<and> session_of_row J r = Some s
           \<and> (\<not> truthy (field ''expires'' r) \<longrightarrow> js_expires s = None)
           \<and> (\<not> truthy (field ''onlineAccessInfo'' r) \<longrightarrow> js_onlineAccessInfo s = None))"
    using loadSession_decodes unset by blast
  have f: "\<forall>ss w'. findSessionsByShop J shop w = (ss, w') \<and> ss \<noteq> [] \<longrightarrow>
        (let rows = all_results (fst (all (getShopifySessionInstanceName shop) select_by_shop
                                        [SqlText shop] w))
         in length ss = length rows
            \<and> (\<forall>i<length rows.
                  session_of_row J (rows ! i) = Some (ss ! i)
                  \<and> (\<not> truthy (field ''expires'' (rows ! i)) \<longrightarrow> js_expires (ss ! i) = None)
                  \<and> (\<not> truthy (field ''onlineAccessInfo'' (rows ! i)) \<longrightarrow>
                       js_onlineAccessInfo (ss ! i) = None)))"
  proof (intro allI impI)
    fix ss w'
    assume a: "findSessionsByShop J shop w = (ss, w') \<and> ss \<noteq> []"
    with findSessionsByShop_decodes[of J shop w ss w']
    show "let rows = all_results (fst (all (getShopifySessionInstanceName shop) select_by_shop
                                        [SqlText shop] w))
         in length ss = length rows
            \<and> (\<forall>i<length rows.
                  session_of_row J (rows ! i) = Some (ss ! i)
                  \<and> (\<not> truthy (field ''expires'' (rows ! i)) \<longrightarrow> js_expires (ss ! i) = None)
                  \<and> (\<not> truthy (field ''onlineAccessInfo'' (rows ! i)) \<longrightarrow>
                       js_onlineAccessInfo (ss ! i) = None))"
      unfolding Let_def using unset by blast
  qed
  from t u l f show ?thesis by blast
qed

theorem falsy_columns_left_unset_witness:
  "field ''expires'' (session_row text_json epoch_session) = SqlInt 0
   \<and> field ''onlineAccessInfo'' (session_row text_json epoch_session) = SqlNull
   \<and> fst (loadSession text_json ''online_a.myshopify.com_7'' epoch_world)
       = Some (raw_session (session_row text_json epoch_session))
   \<and> fst (findSessionsByShop text_json ''a.myshopify.com'' epoch_world)
       = [raw_session (session_row text_json epoch_session)]
   \<and> js_expires (raw_session (session_row text_json epoch_session) :: string js_session) = None"
proof -
  let ?r = "session_row text_json epoch_session"
  have e: "field ''expires'' ?r = SqlInt 0" "field ''onlineAccessInfo'' ?r = SqlNull"
    by (simp_all add: witness_data session_eval)
  then have f: "\<not> truthy (field ''expires'' ?r) \<and> \<not> truthy (field ''onlineAccessInfo'' ?r)"
    by (simp add: truthy_def)
  from falsy_columns_left_unset[of ?r text_json] f
  have d: "session_of_row text_json ?r = Some (raw_session ?r)" by blast
  have l: "fst (loadSession text_json ''online_a.myshopify.com_7'' epoch_world)
       = session_of_row text_json ?r"
    by (simp add: loadSession_def witness_data session_eval world_eval)
  have g: "fst (findSessionsByShop text_json ''a.myshopify.com'' epoch_world)
       = (case session_of_row text_json ?r of None \<Rightarrow> [] | Some s \<Rightarrow> [s])"
    by (simp add: findSessionsByShop_def witness_data session_eval world_eval
          split: option.splits)
  have x: "js_expires (raw_session ?r :: string js_session) = None"
    by (simp add: raw_session_def)
  from e d l g x show ?thesis by simp
qed

lemma exec_upsert_setting:
  assumes "db t = Some tb" and "tcols tb = SETTINGS_SCHEMA"
  shows "\<exists>c. exec_query (InsertOrReplace t [''key'', ''value'', ''updated_at''])
               [SqlText k, SqlText v, SqlInt ts] db
             = Inr (c, db(t \<mapsto> tb\<lparr>trows := other_rows k (trows tb) @ [setting_row k v ts]\<rparr>))"
proof -
  have r: "make_row tb [''key'', ''value'', ''updated_at''] [SqlText k, SqlText v, SqlInt ts]
             = setting_row k v ts"
    using assms(2) by (simp add: make_row_def SETTINGS_SCHEMA_def setting_row_def field_def)
  have c: "\<And>old. conflicts tb (setting_row k v ts) old = (field ''key'' old = SqlText k)"
    using assms(2)
    by (auto simp: conflicts_def pk_columns_def SETTINGS_SCHEMA_def setting_row_def field_def
          sql_eq_def)
  have n: "notnull_columns tb = []"
    using assms(2) by (simp add: notnull_columns_def SETTINGS_SCHEMA_def)
  have h: "\<not> list_ex (\<lambda>c. \<not> has_column tb c) [''key'', ''value'', ''updated_at'']"
    using assms(2) by (simp add: has_column_def SETTINGS_SCHEMA_def)
  show ?thesis
    using assms(1) h n r c by (simp add: Let_def other_rows_def)
qed

lemma updateSetting_rows:
  assumes "has_schema w inst t SETTINGS_SCHEMA"
    and "updateSetting (Some inst) t k v w = (Inr b, w')"
  shows "has_schema w' inst t SETTINGS_SCHEMA
       \<and> table_rows w' inst t = other_rows k (table_rows w inst t) @ [setting_row k v (now w)]"
proof -
  let ?q = "InsertOrReplace t [''key'', ''value'', ''updated_at'']"
  let ?ps = "[SqlText k, SqlText v, SqlInt (now w)]"
  from assms(1) obtain tb where tb: "storage w inst t = Some tb" "tcols tb = SETTINGS_SCHEMA"
    by (auto simp: has_schema_def split: option.splits)
  obtain res w1 where rn: "run inst ?q ?ps w = (res, w1)" by (cases "run inst ?q ?ps w")
  with assms(2) have ok: "run_success res" and w1: "w' = w1"
    by (auto simp: updateSetting_def Let_def split: if_splits)
  from run_storage[OF rn] ok obtain c db where
    e: "exec_query ?q ?ps (storage w inst) = Inr (c, db)"
    and s: "storage w1 = (storage w)(inst := db)" by auto
  from exec_upsert_setting[of "storage w inst" t tb k v "now w", OF tb] e
  have "db = (storage w inst)(t \<mapsto> tb\<lparr>trows := other_rows k (trows tb) @ [setting_row k v (now w)]\<rparr>)"
    by auto
  with s w1 tb show ?thesis
    by (simp add: has_schema_def table_rows_def)
qed

lemma updateSetting_succeeds:
  assumes "has_schema w inst t SETTINGS_SCHEMA" and "next_fault w = None"
  shows "\<exists>w'. updateSetting (Some inst) t k v w = (Inr True, w')"
proof -
  from assms(1) obtain tb where tb: "storage w inst t = Some tb" "tcols tb = SETTINGS_SCHEMA"
    by (auto simp: has_schema_def split: option.splits)
  from exec_upsert_setting[of "storage w inst" t tb k v "now w", OF tb] obtain c db where
    "exec_query (InsertOrReplace t [''key'', ''value'', ''updated_at''])
       [SqlText k, SqlText v, SqlInt (now w)] (storage w inst) = Inr (c, db)" by blast
  with assms(2) show ?thesis
    by (simp add: updateSetting_def run_def sql_exec_def Let_def)
qed

lemma rows_for_upsert:
  "rows_for k (other_rows k rows @ [setting_row k v ts]) = [setting_row k v ts]"
  by (simp add: rows_for_def other_rows_def setting_row_def field_def)

lemma other_rows_upsert:
  "other_rows k (other_rows k rows @ [setting_row k v ts]) = other_rows k rows"
  by (simp add: other_rows_def setting_row_def field_def)

lemma insert_desc_set: "set (insert_desc c r xs) = insert r (set xs)"
  by (induction xs) auto

lemma insert_desc_count:
  "length (filter P (insert_desc c r xs)) = length (filter P (r # xs))"
  by (induction xs) auto

lemma order_by_desc_set: "set (order_by_desc c rows) = set rows"
  by (induction rows) (auto simp: insert_desc_set)

lemma order_by_desc_count:
  "length (filter P (order_by_desc c rows)) = length (filter P rows)"
  by (induction rows) (auto simp: insert_desc_count)

lemma text_le_refl: "text_le s s"
  by (induction s) auto

lemma sql_le_refl: "sql_le v v"
  by (cases v) (auto simp: text_le_refl)

lemma order_by_desc_ties:
  "\<forall>r \<in> set rows. field c r = v \<Longrightarrow> order_by_desc c rows = rows"
proof (induction rows)
  case Nil
  then show ?case by simp
next
  case (Cons r rs)
  then have "order_by_desc c rs = rs" by simp
  with Cons.prems show ?case by (cases rs) (auto simp: sql_le_refl)
qed

lemma filter_single:
  assumes "filter P xs = [x]" and "set ys = set xs"
    and "length (filter P ys) = length (filter P xs)"
  shows "filter P ys = [x]"
proof -
  from assms(1,3) obtain y where y: "filter P ys = [y]"
    by (cases "filter P ys") auto
  then have "y \<in> set (filter P ys)" by simp
  then have "y \<in> set (filter P xs)" using assms(2) by simp
  with assms(1) y show ?thesis by simp
qed

lemma rows_for_sorted:
  "rows_for k rows = [x] \<Longrightarrow> rows_for k (order_by_desc c rows) = [x]"
  unfolding rows_for_def
  by (rule filter_single[where xs = rows]) (simp_all add: order_by_desc_set order_by_desc_count)

lemma getAllSettings_rows:
  assumes "getAllSettings (Some inst) t w = (Inr rows, w')"
  shows "storage w' = storage w
       \<and> (rows = order_by_desc ''updated_at'' (table_rows w inst t) \<or> rows = [])"
proof -
  let ?q = "SelectAllOrderByDesc t ''updated_at''"
  obtain r w1 where x: "sql_exec inst ?q [] w = (r, w1)" by (cases "sql_exec inst ?q [] w")
  show ?thesis
  proof (cases r)
    case (Inl msg)
    with x assms sql_exec_fault_storage[of inst ?q "[]" w msg w1] show ?thesis
      by (auto simp: getAllSettings_def all_def split: if_splits)
  next
    case (Inr c)
    with x sql_exec_ok_storage[of inst ?q "[]" w c w1] obtain db where
      e: "exec_query ?q [] (storage w inst) = Inr (c, db)"
      and s: "storage w1 = (storage w)(inst := db)" by auto
    from e have "db = storage w inst \<and> toArray c = order_by_desc ''updated_at'' (table_rows w inst t)"
      by (auto simp: table_rows_def split: option.splits if_splits)
    with s x Inr assms show ?thesis
      by (auto simp: getAllSettings_def all_def truthy_str_def split: if_splits)
  qed
qed

lemma exec_query_message: "exec_query q ps db = Inl msg \<Longrightarrow> msg \<noteq> []"
  by (cases q) (auto simp: no_such_table_def Let_def split: option.splits if_splits)

lemma sql_exec_message:
  "faults_have_messages w \<Longrightarrow> sql_exec inst q ps w = (Inl msg, w') \<Longrightarrow> msg \<noteq> []"
  by (cases "faults w")
     (auto simp: sql_exec_def next_fault_def faults_have_messages_def Let_def
        split: option.splits sum.splits prod.splits dest: exec_query_message)

lemma sql_exec_keeps_messages:
  "faults_have_messages w \<Longrightarrow> sql_exec inst q ps w = (r, w') \<Longrightarrow> faults_have_messages w'"
  by (cases "faults w")
     (auto simp: sql_exec_def next_fault_def faults_have_messages_def Let_def
        split: option.splits sum.splits prod.splits)

lemma updateSetting_keeps_messages:
  "faults_have_messages w \<Longrightarrow> updateSetting (Some inst) t k v w = (r, w') \<Longrightarrow>
   faults_have_messages w'"
  by (auto simp: updateSetting_def run_def Let_def
      split: if_splits prod.splits sum.splits dest: sql_exec_keeps_messages)

lemma getAllSettings_fresh:
  assumes "faults_have_messages w" and "getAllSettings (Some inst) t w = (Inr rows, w')"
  shows "storage w' = storage w \<and> rows = order_by_desc ''updated_at'' (table_rows w inst t)"
proof -
  let ?q = "SelectAllOrderByDesc t ''updated_at''"
  obtain r w1 where x: "sql_exec inst ?q [] w = (r, w1)" by (cases "sql_exec inst ?q [] w")
  show ?thesis
  proof (cases r)
    case (Inl msg)
    with x sql_exec_message[OF assms(1), of inst ?q "[]" msg w1] have "msg \<noteq> []" by simp
    with x Inl assms(2) show ?thesis
      by (auto simp: getAllSettings_def all_def truthy_str_def split: if_splits)
  next
    case (Inr c)
    with x sql_exec_ok_storage[of inst ?q "[]" w c w1] obtain db where
      e: "exec_query ?q [] (storage w inst) = Inr (c, db)"
      and s: "storage w1 = (storage w)(inst := db)" by auto
    from e have "db = storage w inst \<and> toArray c = order_by_desc ''updated_at'' (table_rows w inst t)"
      by (auto simp: table_rows_def split: option.splits if_splits)
    with s x Inr assms(2) show ?thesis
      by (auto simp: getAllSettings_def all_def truthy_str_def split: if_splits)
  qed
qed

lemma table_rows_storage: "storage w' = storage w \<Longrightarrow> table_rows w' inst t = table_rows w inst t"
  by (simp add: table_rows_def)

lemma updateDatabaseSetting_success:
  assumes "updateDatabaseSetting dbKey checked w = (UpdateSuccess k' c' snapshot, w')"
    and "find_config dbKey = Some config"
  shows "k' = dbKey \<and> c' = checked \<and> binding w
       \<and> (\<exists>b w1. updateSetting (Some (cfg_instanceName config)) (cfg_tableName config)
                    (cfg_settingKey config) (if checked then ''true'' else ''false'') w = (Inr b, w1)
                \<and> getAllSettings (Some (cfg_instanceName config)) (cfg_tableName config) w1
                    = (Inr snapshot, w'))"
  using assms
  by (auto simp: updateDatabaseSetting_def getDurableObjectStub_def Let_def
      split: if_splits prod.splits sum.splits)

lemma updateDatabaseSetting_snapshot:
  assumes "find_config dbKey = Some config"
    and "has_schema w (cfg_instanceName config) (cfg_tableName config) SETTINGS_SCHEMA"
    and "faults_have_messages w"
    and "updateDatabaseSetting dbKey checked w = (UpdateSuccess k' c' snapshot, w')"
  shows "k' = dbKey \<and> c' = checked
       \<and> snapshot = order_by_desc ''updated_at''
                      (table_rows w' (cfg_instanceName config) (cfg_tableName config))
       \<and> rows_for (cfg_settingKey config) snapshot
           = [setting_row (cfg_settingKey config) (if checked then ''true'' else ''false'') (now w)]"
proof -
  let ?i = "cfg_instanceName config" and ?t = "cfg_tableName config"
    and ?k = "cfg_settingKey config" and ?v = "if checked then ''true'' else ''false''"
  from updateDatabaseSetting_success[OF assms(4,1)] obtain b w1 where
    kc: "k' = dbKey" "c' = checked"
    and u: "updateSetting (Some ?i) ?t ?k ?v w = (Inr b, w1)"
    and g: "getAllSettings (Some ?i) ?t w1 = (Inr snapshot, w')" by blast
  from updateSetting_rows[OF assms(2) u]
  have r1: "table_rows w1 ?i ?t = other_rows ?k (table_rows w ?i ?t) @ [setting_row ?k ?v (now w)]"
    by simp
  from updateSetting_keeps_messages[OF assms(3) u] have "faults_have_messages w1" .
  from getAllSettings_fresh[OF this g]
  have s: "storage w' = storage w1"
    and sn: "snapshot = order_by_desc ''updated_at'' (table_rows w1 ?i ?t)" by simp_all
  from r1 have "rows_for ?k (table_rows w1 ?i ?t) = [setting_row ?k ?v (now w)]"
    by (simp only: rows_for_upsert)
  from rows_for_sorted[OF this] sn
  have "rows_for ?k snapshot = [setting_row ?k ?v (now w)]" by simp
  with kc sn table_rows_storage[OF s] show ?thesis by simp
qed

lemma getAllSettings_succeeds:
  assumes "has_schema w inst t SETTINGS_SCHEMA" and "next_fault w = None"
  shows "\<exists>rows w'. getAllSettings (Some inst) t w = (Inr rows, w')"
  using assms
  by (auto simp: getAllSettings_def all_def sql_exec_def Let_def has_schema_def has_column_def
        SETTINGS_SCHEMA_def truthy_str_def
      split: option.splits)

lemma updateSetting_faults:
  "updateSetting (Some inst) t k v w = (r, w') \<Longrightarrow> faults w' = tl (faults w)"
  by (auto simp: updateSetting_def run_def sql_exec_def Let_def
      split: if_splits prod.splits sum.splits option.splits)

lemma updateDatabaseSetting_succeeds:
  assumes "find_config dbKey = Some config" and "binding w"
    and "has_schema w (cfg_instanceName config) (cfg_tableName config) SETTINGS_SCHEMA"
    and "faults w = []"
  shows "\<exists>snapshot w'. updateDatabaseSetting dbKey checked w
                         = (UpdateSuccess dbKey checked snapshot, w')"
proof -
  let ?i = "cfg_instanceName config" and ?t = "cfg_tableName config"
    and ?k = "cfg_settingKey config" and ?v = "if checked then ''true'' else ''false''"
  from assms(4) have nf: "next_fault w = None" by (simp add: next_fault_def)
  from updateSetting_succeeds[OF assms(3) nf, of ?k ?v] obtain w1 where
    u: "updateSetting (Some ?i) ?t ?k ?v w = (Inr True, w1)" by blast
  from updateSetting_rows[OF assms(3) u] have h1: "has_schema w1 ?i ?t SETTINGS_SCHEMA" by simp
  from updateSetting_faults[OF u] assms(4) have "next_fault w1 = None"
    by (simp add: next_fault_def)
  from getAllSettings_succeeds[OF h1 this] obtain rows w2 where
    g: "getAllSettings (Some ?i) ?t w1 = (Inr rows, w2)" by blast
  from assms(1,2) u g show ?thesis
    by (auto simp: updateDatabaseSetting_def getDurableObjectStub_def Let_def)
qed

text \<open>
  \<^bold>\<open>C6.\<close> On a settings table with the schema of the service, a successful
  \<^verbatim>\<open>updateSetting\<close> leaves exactly one row for the key: the value written, with
  \<^verbatim>\<open>updated_at\<close> the clock of the world at the call (the function takes no timestamp),
  and the rows of the other keys as they were. After two successful writes of one key the
  only row for the key has the second value and the clock of the second write. When every
  error \<^verbatim>\<open>sql.exec\<close> raises carries a message, a successful \<^verbatim>\<open>updateDatabaseSetting\<close>
  returns the key and the flag it was given and the rows of the table as they are after
  the write, ordered by \<^verbatim>\<open>updated_at\<close>, with one row for the setting key; and with no
  fault scheduled it succeeds.
\<close>

theorem updateSetting_upsert:
  "(\<forall>b w'. has_schema w inst t SETTINGS_SCHEMA
           \<and> updateSetting (Some inst) t k v w = (Inr b, w') \<longrightarrow>
        rows_for k (table_rows w' inst t) = [setting_row k v (now w)]
      \<and> other_rows k (table_rows w' inst t) = other_rows k (table_rows w inst t))
   \<and> (\<forall>b1 w1 w1' b2 w2.
        has_schema w inst t SETTINGS_SCHEMA
        \<and> updateSetting (Some inst) t k v1 w = (Inr b1, w1)
        \<and> storage w1' = storage w1
        \<and> updateSetting (Some inst) t k v2 w1' = (Inr b2, w2) \<longrightarrow>
        rows_for k (table_rows w2 inst t) = [setting_row k v2 (now w1')])
   \<and> (\<forall>config k' c' snapshot w'.
        find_config dbKey = Some config
        \<and> has_schema w (cfg_instanceName config) (cfg_tableName config) SETTINGS_SCHEMA
        \<and> faults_have_messages w
        \<and> updateDatabaseSetting dbKey checked w = (UpdateSuccess k' c' snapshot, w') \<longrightarrow>
        k' = dbKey \<and> c' = checked
        \<and> snapshot = order_by_desc ''updated_at''
                       (table_rows w' (cfg_instanceName config) (cfg_tableName config))
        \<and> rows_for (cfg_settingKey config) snapshot
            = [setting_row (cfg_settingKey config) (if checked then ''true'' else ''false'')
                 (now w)])
   \<and> (\<forall>config.
        find_config dbKey = Some config \<and> binding w
        \<and> has_schema w (cfg_instanceName config) (cfg_tableName config) SETTINGS_SCHEMA
        \<and> faults w = [] \<longrightarrow>
        (\<exists>snapshot w'. updateDatabaseSetting dbKey checked w
                          = (UpdateSuccess dbKey checked snapshot, w')))"
proof -
  have one: "\<And>w k v b w'. has_schema w inst t SETTINGS_SCHEMA
           \<and> updateSetting (Some inst) t k v w = (Inr b, w') \<Longrightarrow>
        has_schema w' inst t SETTINGS_SCHEMA
      \<and> rows_for k (table_rows w' inst t) = [setting_row k v (now w)]
      \<and> other_rows k (table_rows w' inst t) = other_rows k (table_rows w inst t)"
  proof -
    fix w k v b w'
    assume a: "has_schema w inst t SETTINGS_SCHEMA
           \<and> updateSetting (Some inst) t k v w = (Inr b, w')"
    then have h: "has_schema w inst t SETTINGS_SCHEMA"
      and u: "updateSetting (Some inst) t k v w = (Inr b, w')" by simp_all
    from updateSetting_rows[OF h u] show "has_schema w' inst t SETTINGS_SCHEMA
      \<and> rows_for k (table_rows w' inst t) = [setting_row k v (now w)]
      \<and> other_rows k (table_rows w' inst t) = other_rows k (table_rows w inst t)"
      by (simp add: rows_for_upsert other_rows_upsert)
  qed
  have p1: "\<forall>b w'. has_schema w inst t SETTINGS_SCHEMA
           \<and> updateSetting (Some inst) t k v w = (Inr b, w') \<longrightarrow>
        rows_for k (table_rows w' inst t) = [setting_row k v (now w)]
      \<and> other_rows k (table_rows w' inst t) = other_rows k (table_rows w inst t)"
    using one by blast
  have p2: "\<forall>b1 w1 w1' b2 w2.
        has_schema w inst t SETTINGS_SCHEMA
        \<and> updateSetting (Some inst) t k v1 w = (Inr b1, w1)
        \<and> storage w1' = storage w1
        \<and> updateSetting (Some inst) t k v2 w1' = (Inr b2, w2) \<longrightarrow>
        rows_for k (table_rows w2 inst t) = [setting_row k v2 (now w1')]"
  proof (intro allI impI)
    fix b1 w1 w1' b2 w2
    assume a: "has_schema w inst t SETTINGS_SCHEMA
        \<and> updateSetting (Some inst) t k v1 w = (Inr b1, w1)
        \<and> storage w1' = storage w1
        \<and> updateSetting (Some inst) t k v2 w1' = (Inr b2, w2)"
    with one[of w k v1 b1 w1] have "has_schema w1 inst t SETTINGS_SCHEMA" by simp
    with a have "has_schema w1' inst t SETTINGS_SCHEMA" by (simp add: has_schema_def)
    with a one[of w1' k v2 b2 w2]
    show "rows_for k (table_rows w2 inst t) = [setting_row k v2 (now w1')]" by simp
  qed
  have p3: "\<forall>config k' c' snapshot w'.
        find_config dbKey = Some config
        \<and> has_schema w (cfg_instanceName config) (cfg_tableName config) SETTINGS_SCHEMA
        \<and> faults_have_messages w
        \<and> updateDatabaseSetting dbKey checked w = (UpdateSuccess k' c' snapshot, w') \<longrightarrow>
        k' = dbKey \<and> c' = checked
        \<and> snapshot = order_by_desc ''updated_at''
                       (table_rows w' (cfg_instanceName config) (cfg_tableName config))
        \<and> rows_for (cfg_settingKey config) snapshot
            = [setting_row (cfg_settingKey config) (if checked then ''true'' else ''false'')
                 (now w)]"
    using updateDatabaseSetting_snapshot by blast
  have p4: "\<forall>config.
        find_config dbKey = Some config \<and> binding w
        \<and> has_schema w (cfg_instanceName config) (cfg_tableName config) SETTINGS_SCHEMA
        \<and> faults w = [] \<longrightarrow>
        (\<exists>snapshot w'. updateDatabaseSetting dbKey checked w
                          = (UpdateSuccess dbKey checked snapshot, w'))"
    using updateDatabaseSetting_succeeds by blast
  from p1 p2 p3 p4 show ?thesis by blast
qed

theorem updateSetting_upsert_witness:
  "find_config ''DB1'' = Some db1
   \<and> binding settings_world \<and> faults settings_world = []
   \<and> has_schema settings_world (cfg_instanceName db1) (cfg_tableName db1) SETTINGS_SCHEMA
   \<and> faults_have_messages settings_world
   \<and> fst (updateDatabaseSetting ''DB1'' True settings_world)
       = UpdateSuccess ''DB1'' True
           [setting_row ''test_checkbox_db1'' ''true'' 1700000000000,
            setting_row ''theme'' ''dark'' 1600000000000]
   \<and> rows_for (cfg_settingKey db1)
         [setting_row ''test_checkbox_db1'' ''true'' 1700000000000,
          setting_row ''theme'' ''dark'' 1600000000000]
       = [setting_row (cfg_settingKey db1) ''true'' (now settings_world)]
   \<and> rows_for ''test_checkbox_db1''
        (table_rows
           (snd (updateSetting (Some ''database-1'') ''settings'' ''test_checkbox_db1'' ''true''
                   settings_world))
           ''database-1'' ''settings'')
       = [setting_row ''test_checkbox_db1'' ''true'' 1700000000000]
   \<and> rows_for ''test_checkbox_db1''
        (table_rows
           (snd (updateSetting (Some ''database-1'') ''settings'' ''test_checkbox_db1'' ''false''
              ((snd (updateSetting (Some ''database-1'') ''settings'' ''test_checkbox_db1''
                       ''true'' settings_world))\<lparr>now := 1700000005000\<rparr>)))
           ''database-1'' ''settings'')
       = [setting_row ''test_checkbox_db1'' ''false'' 1700000005000]"
proof -
  let ?w = settings_world
  let ?u1 = "updateSetting (Some ''database-1'') ''settings'' ''test_checkbox_db1'' ''true'' ?w"
  let ?w1' = "(snd ?u1)\<lparr>now := 1700000005000\<rparr>"
  let ?u2 = "updateSetting (Some ''database-1'') ''settings'' ''test_checkbox_db1'' ''false'' ?w1'"
  let ?snap = "[setting_row ''test_checkbox_db1'' ''true'' 1700000000000,
            setting_row ''theme'' ''dark'' 1600000000000]"
  note upsert = updateSetting_upsert[of ?w "''database-1''" "''settings''"
      "''test_checkbox_db1''" "''true''" "''true''" "''false''" "''DB1''" True]
  have c: "find_config ''DB1'' = Some db1"
    by (simp add: find_config_def DATABASE_CONFIG_def db1_def)
  have h: "has_schema ?w ''database-1'' ''settings'' SETTINGS_SCHEMA"
    by (simp add: has_schema_def settings_world_def)
  have h': "has_schema ?w (cfg_instanceName db1) (cfg_tableName db1) SETTINGS_SCHEMA"
    using h by (simp add: db1_def)
  have m: "faults_have_messages ?w"
    by (simp add: faults_have_messages_def settings_world_def)
  have b: "binding ?w" and f: "faults ?w = []" and n0: "now ?w = 1700000000000"
    by (simp_all add: settings_world_def)
  have s: "updateDatabaseSetting ''DB1'' True ?w
       = (UpdateSuccess ''DB1'' True ?snap, snd (updateDatabaseSetting ''DB1'' True ?w))"
    by (simp add: settings_world_def settings_eval world_eval)
  have u1: "?u1 = (Inr True, snd ?u1)"
    by (simp add: settings_world_def settings_eval world_eval)
  have u2: "?u2 = (Inr True, snd ?u2)"
    by (simp add: settings_world_def settings_eval world_eval)
  have st: "storage ?w1' = storage (snd ?u1)" by simp
  have n: "now ?w1' = 1700000005000" by simp
  from upsert[THEN conjunct1, rule_format, OF conjI[OF h u1]]
  have once: "rows_for ''test_checkbox_db1'' (table_rows (snd ?u1) ''database-1'' ''settings'')
       = [setting_row ''test_checkbox_db1'' ''true'' (now ?w)]" by simp
  from upsert[THEN conjunct2, THEN conjunct1, rule_format,
      OF conjI[OF h conjI[OF u1 conjI[OF st u2]]]]
  have twice: "rows_for ''test_checkbox_db1'' (table_rows (snd ?u2) ''database-1'' ''settings'')
       = [setting_row ''test_checkbox_db1'' ''false'' (now ?w1')]" .
  note fresh = upsert[THEN conjunct2, THEN conjunct2, THEN conjunct1, rule_format,
      OF conjI[OF c conjI[OF h' conjI[OF m s]]]]
  from fresh[THEN conjunct2, THEN conjunct2, THEN conjunct2]
  have snap: "rows_for (cfg_settingKey db1) ?snap
       = [setting_row (cfg_settingKey db1) ''true'' (now ?w)]" by (simp only: if_True)
  from upsert[THEN conjunct2, THEN conjunct2, THEN conjunct2, rule_format,
      OF conjI[OF c conjI[OF b conjI[OF h' f]]]] s
  have succ: "fst (updateDatabaseSetting ''DB1'' True ?w) = UpdateSuccess ''DB1'' True ?snap"
    by (metis fst_conv)
  from c b f h' m succ snap once[unfolded n0] twice[unfolded n] show ?thesis by (intro conjI)
qed

lemma session_row_fields:
  "field ''id'' (session_row J s) = SqlText (s_id s)"
  "field ''shop'' (session_row J s) = SqlText (s_shop s)"
  "field ''state'' (session_row J s) = SqlText (s_state s)"
  "field ''isOnline'' (session_row J s) = SqlInt (if s_isOnline s then 1 else 0)"
  "field ''scope'' (session_row J s) = opt_text (s_scope s)"
  "field ''accessToken'' (session_row J s) = opt_text (s_accessToken s)"
  "field ''expires'' (session_row J s) = (case s_expires s of Some t \<Rightarrow> SqlInt t | None \<Rightarrow> SqlNull)"
  "field ''onlineAccessInfo'' (session_row J s)
     = (case s_onlineAccessInfo s of Some info \<Rightarrow> SqlText (stringify J info) | None \<Rightarrow> SqlNull)"
  by (simp_all add: session_row_def SESSION_COLUMNS_def session_params_def field_def)

lemma session_of_stored_row:
  assumes "s_expires s \<noteq> Some 0" and "json_round_trip J s"
  shows "session_of_row J (session_row J s) = Some (as_loaded s)"
proof -
  have e: "(if truthy (case s_expires s of Some t \<Rightarrow> SqlInt t | None \<Rightarrow> SqlNull)
            then Some (case s_expires s of Some t \<Rightarrow> SqlInt t | None \<Rightarrow> SqlNull) else None)
           = map_option SqlInt (s_expires s)"
    using assms(1) by (cases "s_expires s") (auto simp: truthy_def)
  show ?thesis
  proof (cases "s_onlineAccessInfo s")
    case None
    then show ?thesis
      using assms(1)
      by (cases "s_expires s")
         (simp_all add: session_of_row_def session_row_fields Let_def truthy_def as_loaded_def)
  next
    case (Some info)
    with assms(2) have j: "stringify J info \<noteq> []" "parse J (SqlText (stringify J info)) = Some info"
      by (simp_all add: json_round_trip_def)
    with Some show ?thesis
      using assms(1)
      by (cases "s_expires s")
         (simp_all add: session_of_row_def session_row_fields Let_def truthy_def as_loaded_def)
  qed
qed

lemma exec_upsert_session:
  assumes "db SHOPIFY_SESSION_CONFIG_tableName = Some tb" and "tcols tb = SESSION_SCHEMA"
  shows "\<exists>c. exec_query (InsertOrReplace SHOPIFY_SESSION_CONFIG_tableName SESSION_COLUMNS)
               (session_params J s) db
             = Inr (c, db(SHOPIFY_SESSION_CONFIG_tableName \<mapsto>
                  tb\<lparr>trows := filter (\<lambda>old. field ''id'' old \<noteq> SqlText (s_id s)) (trows tb)
                                @ [session_row J s]\<rparr>))"
proof -
  have r: "make_row tb SESSION_COLUMNS (session_params J s) = session_row J s"
    using assms(2)
    by (simp add: make_row_def SESSION_SCHEMA_def SESSION_COLUMNS_def session_row_def
          session_params_def field_def)
  have c: "\<And>old. conflicts tb (session_row J s) old = (field ''id'' old = SqlText (s_id s))"
    using assms(2)
    by (auto simp: conflicts_def pk_columns_def SESSION_SCHEMA_def session_row_fields sql_eq_def)
  have n: "\<not> list_ex (\<lambda>c. field c (session_row J s) = SqlNull) (notnull_columns tb)"
    using assms(2) by (simp add: notnull_columns_def SESSION_SCHEMA_def session_row_fields)
  have h: "\<not> list_ex (\<lambda>c. \<not> has_column tb c) SESSION_COLUMNS"
    using assms(2) by (simp add: has_column_def SESSION_SCHEMA_def SESSION_COLUMNS_def)
  have l: "length (session_params J s) = length SESSION_COLUMNS"
    by (simp add: session_params_def SESSION_COLUMNS_def)
  show ?thesis
    using assms(1) h n r c l by (simp add: Let_def)
qed

lemma sql_exec_binding: "sql_exec inst q ps w = (r, w') \<Longrightarrow> binding w' = binding w"
  by (auto simp: sql_exec_def Let_def split: option.splits sum.splits prod.splits)

lemma run_binding: "run inst q ps w = (r, w') \<Longrightarrow> binding w' = binding w"
  by (auto simp: run_def split: prod.splits sum.splits dest: sql_exec_binding)

lemma exec_create_sessions:
  "exec_query (CreateTableIfNotExists SHOPIFY_SESSION_CONFIG_tableName SESSION_SCHEMA) [] db
     = Inr (c, db') \<Longrightarrow>
   (case db SHOPIFY_SESSION_CONFIG_tableName of None \<Rightarrow> True | Some tb \<Rightarrow> tcols tb = SESSION_SCHEMA) \<Longrightarrow>
   (case db' SHOPIFY_SESSION_CONFIG_tableName of None \<Rightarrow> True | Some tb \<Rightarrow> tcols tb = SESSION_SCHEMA)"
  by (auto split: option.splits)

lemma initializeTable_keeps:
  assumes "initializeTable shop w = (b, w')"
    and "sessions_table_ok w (getShopifySessionInstanceName shop)"
  shows "sessions_table_ok w' (getShopifySessionInstanceName shop) \<and> binding w' = binding w"
proof (cases "binding w")
  case False
  with assms show ?thesis by (simp add: initializeTable_def getShopifySessionsStub_def)
next
  case True
  let ?i = "getShopifySessionInstanceName shop"
  let ?q = "CreateTableIfNotExists SHOPIFY_SESSION_CONFIG_tableName SESSION_SCHEMA"
  obtain res w1 where rn: "run ?i ?q [] w = (res, w1)" by (cases "run ?i ?q [] w")
  with assms(1) True have w1: "w' = w1"
    by (simp add: initializeTable_def getShopifySessionsStub_def)
  show ?thesis
  proof (cases "run_success res")
    case False
    with run_storage[OF rn] run_binding[OF rn] assms(2) w1 show ?thesis
      by (simp add: sessions_table_ok_def)
  next
    case True
    with run_storage[OF rn] obtain c db where
      e: "exec_query ?q [] (storage w ?i) = Inr (c, db)"
      and s: "storage w1 = (storage w)(?i := db)" by auto
    from exec_create_sessions[OF e] assms(2) s w1 run_binding[OF rn] show ?thesis
      by (simp add: sessions_table_ok_def)
  qed
qed

lemma storeSession_row:
  assumes "storeSession J s w = (True, w1)"
    and "sessions_table_ok w (getShopifySessionInstanceName (s_shop s))"
  shows "binding w1 \<and>
         (\<exists>tb. storage w1 (getShopifySessionInstanceName (s_shop s)) SHOPIFY_SESSION_CONFIG_tableName
                 = Some tb
              \<and> tcols tb = SESSION_SCHEMA
              \<and> filter (\<lambda>r. sql_eq (field ''id'' r) (SqlText (s_id s))) (trows tb)
                  = [session_row J s])"
proof -
  let ?i = "getShopifySessionInstanceName (s_shop s)"
  let ?q = "InsertOrReplace SHOPIFY_SESSION_CONFIG_tableName SESSION_COLUMNS"
  from assms(1) have b: "binding w"
    by (auto simp: storeSession_def getShopifySessionsStub_def split: if_splits)
  obtain b0 w0 where it: "initializeTable (s_shop s) w = (b0, w0)"
    by (cases "initializeTable (s_shop s) w")
  obtain res w' where rn: "run ?i ?q (session_params J s) w0 = (res, w')"
    by (cases "run ?i ?q (session_params J s) w0")
  from assms(1) b it rn have ok: "run_success res" and w1: "w1 = w'"
    by (auto simp: storeSession_def getShopifySessionsStub_def)
  from initializeTable_keeps[OF it assms(2)] b
  have ok0: "sessions_table_ok w0 ?i" and b0: "binding w0" by simp_all
  from run_storage[OF rn] ok obtain c db where
    e: "exec_query ?q (session_params J s) (storage w0 ?i) = Inr (c, db)"
    and st: "storage w' = (storage w0)(?i := db)" by auto
  from e obtain tb where tb: "storage w0 ?i SHOPIFY_SESSION_CONFIG_tableName = Some tb"
    by (auto split: option.splits)
  with ok0 have sch: "tcols tb = SESSION_SCHEMA" by (simp add: sessions_table_ok_def)
  from exec_upsert_session[of "storage w0 ?i" tb J s, OF tb sch] e
  have db: "db = (storage w0 ?i)(SHOPIFY_SESSION_CONFIG_tableName \<mapsto>
                  tb\<lparr>trows := filter (\<lambda>old. field ''id'' old \<noteq> SqlText (s_id s)) (trows tb)
                                @ [session_row J s]\<rparr>)" by auto
  have f: "filter (\<lambda>r. sql_eq (field ''id'' r) (SqlText (s_id s)))
             (filter (\<lambda>old. field ''id'' old \<noteq> SqlText (s_id s)) (trows tb) @ [session_row J s])
           = [session_row J s]"
    by (auto simp: sql_eq_def session_row_fields filter_empty_conv)
  from run_binding[OF rn] b0 w1 have "binding w1" by simp
  with st db w1 sch f show ?thesis by simp
qed

lemma loadSession_stored:
  assumes "binding w1" and "next_fault w1 = None"
    and "extractShopFromSessionId sid = Some shop" and "shop \<noteq> []"
    and "storage w1 (getShopifySessionInstanceName shop) SHOPIFY_SESSION_CONFIG_tableName = Some tb"
    and "tcols tb = SESSION_SCHEMA"
    and "filter (\<lambda>r. sql_eq (field ''id'' r) (SqlText sid)) (trows tb) = [r]"
  shows "\<exists>w2. loadSession J sid w1 = (session_of_row J r, w2)"
proof -
  have h: "has_column tb ''id''"
    using assms(6) by (simp add: has_column_def SESSION_SCHEMA_def)
  show ?thesis
    using assms h
    by (simp add: loadSession_def Let_def falsy_shop_def getShopifySessionsStub_def first_def
          sql_exec_def truthy_str_def)
qed

text \<open>
  Two sessions \<^verbatim>\<open>storeSession\<close> accepts and \<^verbatim>\<open>loadSession\<close> does not give back: one
  expiring at the epoch instant 0, which is loaded without \<^verbatim>\<open>expires\<close>, and one whose id
  has no \<^verbatim>\<open>_\<close>, which is not found.
\<close>

theorem store_then_load_fails:
  "storeSession text_json epoch_session fresh_world
     = (True, snd (storeSession text_json epoch_session fresh_world))
   \<and> fst (loadSession text_json (s_id epoch_session)
             (snd (storeSession text_json epoch_session fresh_world)))
       \<noteq> Some (as_loaded epoch_session)
   \<and> storeSession text_json stray_session fresh_world
     = (True, snd (storeSession text_json stray_session fresh_world))
   \<and> fst (loadSession text_json (s_id stray_session)
             (snd (storeSession text_json stray_session fresh_world)))
       = None"
proof -
  have a: "storeSession text_json epoch_session fresh_world
     = (True, snd (storeSession text_json epoch_session fresh_world))"
    by (simp add: store_eval witness_data session_eval world_eval)
  have b: "fst (loadSession text_json (s_id epoch_session)
             (snd (storeSession text_json epoch_session fresh_world)))
       \<noteq> Some (as_loaded epoch_session)"
    by (simp add: store_eval witness_data session_eval world_eval)
  have c: "storeSession text_json stray_session fresh_world
     = (True, snd (storeSession text_json stray_session fresh_world))"
    by (simp add: store_eval witness_data stray_session_def session_eval world_eval)
  have d: "fst (loadSession text_json (s_id stray_session)
             (snd (storeSession text_json stray_session fresh_world)))
       = None"
    by (simp add: loadSession_def stray_session_def session_eval)
  from a b c d show ?thesis by (intro conjI)
qed

text \<open>
  \<^bold>\<open>C1\<close>, as the code has it. Let \<^verbatim>\<open>storeSession\<close> accept a session whose id is routed to
  the instance of its shop, whose sessions table was absent or had the schema of the
  adapter, whose \<^verbatim>\<open>expires\<close> is absent or an instant other than the epoch instant 0, and
  whose \<^verbatim>\<open>onlineAccessInfo\<close>, when present, is a non-empty \<open>JSON\<close> text that parses back to
  it. Then \<^verbatim>\<open>loadSession\<close> of its id, when its query does not fault, returns the session
  equal to it in every field.
\<close>

theorem store_then_load:
  assumes "storeSession J s w = (True, w1)"
    and "sessions_table_ok w (getShopifySessionInstanceName (s_shop s))"
    and "routes_home s"
    and "s_expires s \<noteq> Some 0"
    and "json_round_trip J s"
    and "next_fault w1 = None"
  shows "\<exists>w2. loadSession J (s_id s) w1 = (Some (as_loaded s), w2)"
proof -
  from assms(3) obtain shop where sh: "extractShopFromSessionId (s_id s) = Some shop" "shop \<noteq> []"
    "getShopifySessionInstanceName shop = getShopifySessionInstanceName (s_shop s)"
    by (auto simp: routes_home_def split: option.splits)
  from storeSession_row[OF assms(1,2)] obtain tb where
    b: "binding w1"
    and tb: "storage w1 (getShopifySessionInstanceName (s_shop s)) SHOPIFY_SESSION_CONFIG_tableName
              = Some tb"
    and sch: "tcols tb = SESSION_SCHEMA"
    and f: "filter (\<lambda>r. sql_eq (field ''id'' r) (SqlText (s_id s))) (trows tb) = [session_row J s]"
    by blast
  from tb sh(3)
  have tb': "storage w1 (getShopifySessionInstanceName shop) SHOPIFY_SESSION_CONFIG_tableName = Some tb"
    by simp
  from loadSession_stored[OF b assms(6) sh(1,2) tb' sch f, of J]
    session_of_stored_row[OF assms(4,5)]
  show ?thesis by simp
qed

theorem store_then_load_witness:
  "storeSession text_json (online_session ''1'') fresh_world
     = (True, snd (storeSession text_json (online_session ''1'') fresh_world))
   \<and> sessions_table_ok fresh_world (getShopifySessionInstanceName (s_shop (online_session ''1'')))
   \<and> routes_home (online_session ''1'')
   \<and> s_expires (online_session ''1'') \<noteq> Some 0
   \<and> json_round_trip text_json (online_session ''1'')
   \<and> next_fault (snd (storeSession text_json (online_session ''1'') fresh_world)) = None
   \<and> fst (loadSession text_json (s_id (online_session ''1''))
             (snd (storeSession text_json (online_session ''1'') fresh_world)))
       = Some (as_loaded (online_session ''1''))"
proof -
  let ?s = "online_session ''1''"
  let ?st = "storeSession text_json ?s fresh_world"
  have a: "?st = (True, snd ?st)"
    by (simp add: store_eval witness_data session_eval world_eval)
  have b: "sessions_table_ok fresh_world (getShopifySessionInstanceName (s_shop ?s))"
    by (simp add: sessions_table_ok_def fresh_world_def)
  have c: "routes_home ?s"
    by (simp add: routes_home_def witness_data session_eval)
  have d: "s_expires ?s \<noteq> Some 0" by (simp add: online_session_def)
  have e: "json_round_trip text_json ?s"
    by (simp add: json_round_trip_def online_session_def text_json_def)
  have f: "next_fault (snd ?st) = None"
    by (simp add: store_eval witness_data session_eval world_eval)
  from store_then_load[OF a b c d e f]
  have g: "fst (loadSession text_json (s_id ?s) (snd ?st)) = Some (as_loaded ?s)" by auto
  from a b c d e f g show ?thesis by (intro conjI)
qed

end
